theory Spec2Isabelle
  imports Complex_Main
begin

section \<open>Python values used by the noise terminal programs\<close>

text \<open>
  The three programs (\<^verbatim>\<open>test4.py\<close>, \<^verbatim>\<open>test4_optimized.py\<close>,
  \<^verbatim>\<open>test4_optimized_v2.py\<close>) compute with Python floats and unbounded integers.
  Floats are modelled as \<^typ>\<open>real\<close> (exact arithmetic, no rounding, no infinities),
  integers as \<^typ>\<open>int\<close> or \<^typ>\<open>nat\<close>, strings as \<^typ>\<open>string\<close>.
  Exceptions are values of \<open>py_error\<close>. The rounding of doubles is modelled where a
  statement depends on it, for the velocity lines of the main loops (section
  ``Python floats as IEEE doubles'').
\<close>

datatype py_error = ZeroDivisionError | ValueError | IndexError

text \<open>\<^verbatim>\<open>int(x)\<close> on a float truncates towards zero.\<close>

definition py_trunc :: "real \<Rightarrow> int" where
  "py_trunc x = (if 0 \<le> x then \<lfloor>x\<rfloor> else \<lceil>x\<rceil>)"

text \<open>
  \<^verbatim>\<open>round(x, n)\<close>: the closest multiple of \<open>10 ^ -n\<close>, ties going to the even
  multiple.
\<close>

definition round_half_even :: "real \<Rightarrow> int" where
  "round_half_even y =
     (let f = \<lfloor>y\<rfloor>; d = y - of_int f
      in if d < 1 / 2 then f
         else if 1 / 2 < d then f + 1
         else if even f then f else f + 1)"

definition py_round :: "real \<Rightarrow> nat \<Rightarrow> real" where
  "py_round x n = of_int (round_half_even (x * 10 ^ n)) / 10 ^ n"

section \<open>mxplusb\<close>

text \<open>
  \<^verbatim>\<open>
  def mxplusb(exp1, act1, exp2, act2):
      m = (exp2 - exp1) / (act2 - act1)
      b = exp1 - (m * act1)
      return [m, b]
  \<close>
  The division raises \<open>ZeroDivisionError\<close> when the divisor is zero.
\<close>

definition mxplusb :: "real \<Rightarrow> real \<Rightarrow> real \<Rightarrow> real \<Rightarrow> py_error + real \<times> real" where
  "mxplusb exp1 act1 exp2 act2 =
     (if act2 - act1 = 0 then Inl ZeroDivisionError
      else (let m = (exp2 - exp1) / (act2 - act1);
                b = exp1 - (m * act1)
            in Inr (m, b)))"

section \<open>The noise cache\<close>

text \<open>
  A Python \<open>dict\<close> keeps its keys in insertion order, and the eviction depends on that
  order, so the cache is an association list, oldest entry first.
\<close>

type_synonym coord = "real \<times> real \<times> real"

type_synonym noise_dict = "(coord \<times> real) list"

text \<open>\<^verbatim>\<open>d[k] = v\<close>: a new key goes to the end, a present key keeps its place.\<close>

definition dict_set :: "'k \<Rightarrow> 'v \<Rightarrow> ('k \<times> 'v) list \<Rightarrow> ('k \<times> 'v) list" where
  "dict_set k v d =
     (if k \<in> set (map fst d)
      then map (\<lambda>e. if fst e = k then (k, v) else e) d
      else d @ [(k, v)])"

text \<open>\<^verbatim>\<open>del d[k]\<close> for a key of the dictionary.\<close>

definition dict_del :: "'k \<Rightarrow> ('k \<times> 'v) list \<Rightarrow> ('k \<times> 'v) list" where
  "dict_del k d = filter (\<lambda>e. fst e \<noteq> k) d"

text \<open>\<^verbatim>\<open>for k in items_to_remove: del d[k]\<close>\<close>

definition dict_del_all :: "'k list \<Rightarrow> ('k \<times> 'v) list \<Rightarrow> ('k \<times> 'v) list" where
  "dict_del_all ks d = fold dict_del ks d"

subsection \<open>NoiseRenderer (test4_optimized.py)\<close>

text \<open>
  The fields of the class that the methods read or write. \<open>noise_calls\<close> is not a field
  of the class: it lists the arguments of every call of the external \<^verbatim>\<open>pnoise3\<close> made
  through the renderer, oldest first, so that theorems can say when the noise source is
  invoked. The noise source itself is the parameter \<open>noise\<close> of each function.
\<close>

record NoiseRenderer =
  width :: nat
  height :: nat
  noise_cache :: noise_dict
  cache_max_size :: nat
  frame_buffer :: "string list"
  noise_calls :: "coord list"

definition NoiseRenderer_init :: "nat \<Rightarrow> nat \<Rightarrow> NoiseRenderer" where
  "NoiseRenderer_init w h =
     \<lparr>width = w, height = h, noise_cache = [], cache_max_size = 10000,
      frame_buffer = [], noise_calls = []\<rparr>"

text \<open>
  \<^verbatim>\<open>
  def get_noise_cached(self, x, y, z):
      key = (round(x, 2), round(y, 2), round(z, 2))
      if key in self.noise_cache:
          return self.noise_cache[key]
      value = float(pnoise3(x, y, z))
      if len(self.noise_cache) >= self.cache_max_size:
          items_to_remove = list(self.noise_cache.keys())[:self.cache_max_size // 5]
          for k in items_to_remove:
              del self.noise_cache[k]
      self.noise_cache[key] = value
      return value
  \<close>
\<close>

definition get_noise_cached ::
  "(real \<Rightarrow> real \<Rightarrow> real \<Rightarrow> real) \<Rightarrow> NoiseRenderer \<Rightarrow> real \<Rightarrow> real \<Rightarrow> real \<Rightarrow> real \<times> NoiseRenderer" where
  "get_noise_cached noise r x y z =
     (let key = (py_round x 2, py_round y 2, py_round z 2)
      in case map_of (noise_cache r) key of
           Some v \<Rightarrow> (v, r)
         | None \<Rightarrow>
             (let value = noise x y z;
                  r1 = r\<lparr>noise_calls := noise_calls r @ [(x, y, z)]\<rparr>;
                  r2 = (if cache_max_size r1 \<le> length (noise_cache r1)
                        then (let items_to_remove =
                                    take (cache_max_size r1 div 5) (map fst (noise_cache r1))
                              in r1\<lparr>noise_cache := dict_del_all items_to_remove (noise_cache r1)\<rparr>)
                        else r1)
              in (value, r2\<lparr>noise_cache := dict_set key value (noise_cache r2)\<rparr>)))"

subsection \<open>OptimizedNoiseRenderer (test4_optimized_v2.py)\<close>

record OptimizedNoiseRenderer =
  v2_width :: nat
  v2_height :: nat
  enable_cache :: bool
  v2_noise_cache :: noise_dict
  v2_cache_max_size :: nat
  cache_hits :: nat
  cache_misses :: nat
  output_parts :: "string list"
  v2_noise_calls :: "coord list"

definition OptimizedNoiseRenderer_init :: "nat \<Rightarrow> nat \<Rightarrow> OptimizedNoiseRenderer" where
  "OptimizedNoiseRenderer_init w h =
     \<lparr>v2_width = w, v2_height = h, enable_cache = True, v2_noise_cache = [],
      v2_cache_max_size = 2000, cache_hits = 0, cache_misses = 0,
      output_parts = [], v2_noise_calls = []\<rparr>"

text \<open>
  \<^verbatim>\<open>
  def get_noise_optimized(self, x, y, z):
      if not self.enable_cache:
          return float(pnoise3(x, y, z))
      key = (round(x, 1), round(y, 1), round(z, 1))
      if key in self.noise_cache:
          self.cache_hits += 1
          return self.noise_cache[key]
      value = float(pnoise3(x, y, z))
      self.cache_misses += 1
      if len(self.noise_cache) >= self.cache_max_size:
          items_to_remove = list(self.noise_cache.keys())[:self.cache_max_size // 2]
          for k in items_to_remove:
              del self.noise_cache[k]
      self.noise_cache[key] = value
      return value
  \<close>
\<close>

definition get_noise_optimized ::
  "(real \<Rightarrow> real \<Rightarrow> real \<Rightarrow> real) \<Rightarrow> OptimizedNoiseRenderer \<Rightarrow> real \<Rightarrow> real \<Rightarrow> real
     \<Rightarrow> real \<times> OptimizedNoiseRenderer" where
  "get_noise_optimized noise r x y z =
     (if \<not> enable_cache r
      then (noise x y z, r\<lparr>v2_noise_calls := v2_noise_calls r @ [(x, y, z)]\<rparr>)
      else
       (let key = (py_round x 1, py_round y 1, py_round z 1)
        in case map_of (v2_noise_cache r) key of
             Some v \<Rightarrow> (v, r\<lparr>cache_hits := cache_hits r + 1\<rparr>)
           | None \<Rightarrow>
               (let value = noise x y z;
                    r1 = r\<lparr>v2_noise_calls := v2_noise_calls r @ [(x, y, z)],
                           cache_misses := cache_misses r + 1\<rparr>;
                    r2 = (if v2_cache_max_size r1 \<le> length (v2_noise_cache r1)
                          then (let items_to_remove =
                                      take (v2_cache_max_size r1 div 2) (map fst (v2_noise_cache r1))
                                in r1\<lparr>v2_noise_cache := dict_del_all items_to_remove (v2_noise_cache r1)\<rparr>)
                          else r1)
                in (value, r2\<lparr>v2_noise_cache := dict_set key value (v2_noise_cache r2)\<rparr>))))"

text \<open>A sequence of lookups, each on the renderer the one before left.\<close>

fun lookups :: "(real \<Rightarrow> real \<Rightarrow> real \<Rightarrow> real) \<Rightarrow> NoiseRenderer \<Rightarrow> coord list \<Rightarrow> NoiseRenderer" where
  "lookups noise r [] = r"
| "lookups noise r ((x, y, z) # cs) = lookups noise (snd (get_noise_cached noise r x y z)) cs"

fun v2_lookups ::
  "(real \<Rightarrow> real \<Rightarrow> real \<Rightarrow> real) \<Rightarrow> OptimizedNoiseRenderer \<Rightarrow> coord list \<Rightarrow> OptimizedNoiseRenderer" where
  "v2_lookups noise r [] = r"
| "v2_lookups noise r ((x, y, z) # cs) = v2_lookups noise (snd (get_noise_optimized noise r x y z)) cs"

text \<open>The keys of the two caches, and the invariant of a cache: no key twice.\<close>

definition cache_key :: "coord \<Rightarrow> coord" where
  "cache_key c = (case c of (x, y, z) \<Rightarrow> (py_round x 2, py_round y 2, py_round z 2))"

definition v2_cache_key :: "coord \<Rightarrow> coord" where
  "v2_cache_key c = (case c of (x, y, z) \<Rightarrow> (py_round x 1, py_round y 1, py_round z 1))"

definition cache_ok :: "NoiseRenderer \<Rightarrow> bool" where
  "cache_ok r = distinct (map fst (noise_cache r))"

definition v2_cache_ok :: "OptimizedNoiseRenderer \<Rightarrow> bool" where
  "v2_cache_ok r = (enable_cache r \<and> distinct (map fst (v2_noise_cache r)))"

text \<open>The entry that a call of the noise source at \<open>c\<close> puts into the cache.\<close>

definition call_entry :: "(real \<Rightarrow> real \<Rightarrow> real \<Rightarrow> real) \<Rightarrow> coord \<Rightarrow> coord \<times> real" where
  "call_entry noise c = (case c of (x, y, z) \<Rightarrow> (cache_key c, noise x y z))"


section \<open>Strings\<close>

text \<open>\<^verbatim>\<open>s.replace(c, "")\<close> for a one-character \<open>c\<close>.\<close>

definition remove_char :: "char \<Rightarrow> string \<Rightarrow> string" where
  "remove_char c s = filter (\<lambda>d. d \<noteq> c) s"

text \<open>\<^verbatim>\<open>s.split(sep)\<close> for a one-character separator: empty pieces are kept.\<close>

fun split_on :: "char \<Rightarrow> string \<Rightarrow> string list" where
  "split_on sep [] = [[]]"
| "split_on sep (c # cs) =
     (if c = sep then [] # split_on sep cs
      else (case split_on sep cs of
              w # ws \<Rightarrow> (c # w) # ws
            | [] \<Rightarrow> [[c]]))"

text \<open>\<^verbatim>\<open>sep.join(parts)\<close>\<close>

fun join :: "string \<Rightarrow> string list \<Rightarrow> string" where
  "join sep [] = []"
| "join sep [p] = p"
| "join sep (p # q # ps) = p @ sep @ join sep (q # ps)"

text \<open>
  \<^verbatim>\<open>int(s)\<close> for a string of characters below U+0100. White space around the number
  is dropped: the ASCII white space (blank, tab, line feed, vertical tab, form feed,
  carriage return) and, of the characters above U+007F, U+0085 and U+00A0; the
  separators U+001C to U+001F are not dropped. A sign may come first, then decimal
  digits, where single underscores may stand between digits. A number of more than 4300
  digits is refused (the default limit of CPython 3.11 and later). Anything else raises
  \<open>ValueError\<close>, here \<open>None\<close>.
\<close>

definition is_space :: "char \<Rightarrow> bool" where
  "is_space c = (c \<in> set [CHR '' '', CHR 0x09, CHR 0x0A, CHR 0x0B, CHR 0x0C, CHR 0x0D,
                            CHR 0x85, CHR 0xA0])"

definition strip :: "string \<Rightarrow> string" where
  "strip s = rev (dropWhile is_space (rev (dropWhile is_space s)))"

definition digit_val :: "char \<Rightarrow> nat option" where
  "digit_val c =
     map_of [(CHR ''0'', 0), (CHR ''1'', 1), (CHR ''2'', 2), (CHR ''3'', 3), (CHR ''4'', 4),
             (CHR ''5'', 5), (CHR ''6'', 6), (CHR ''7'', 7), (CHR ''8'', 8), (CHR ''9'', 9)] c"

fun parse_digits :: "nat \<Rightarrow> string \<Rightarrow> nat option" where
  "parse_digits acc [] = Some acc"
| "parse_digits acc [c] =
     (case digit_val c of Some d \<Rightarrow> Some (acc * 10 + d) | None \<Rightarrow> None)"
| "parse_digits acc (c # c' # cs) =
     (case digit_val c of
        Some d \<Rightarrow> parse_digits (acc * 10 + d) (c' # cs)
      | None \<Rightarrow>
          (if c = CHR ''_''
           then (case digit_val c' of
                   Some d \<Rightarrow> parse_digits (acc * 10 + d) cs
                 | None \<Rightarrow> None)
           else None))"

definition py_int :: "string \<Rightarrow> int option" where
  "py_int s =
     (let t = strip s;
          neg = (t \<noteq> [] \<and> hd t = CHR ''-'');
          u = (if t \<noteq> [] \<and> (hd t = CHR ''-'' \<or> hd t = CHR ''+'') then tl t else t)
      in if 4300 < length (filter (\<lambda>c. c \<noteq> CHR ''_'') u) then None
         else case u of
           [] \<Rightarrow> None
         | c # cs \<Rightarrow>
             (case digit_val c of
                None \<Rightarrow> None
              | Some d \<Rightarrow>
                  (case parse_digits d cs of
                     None \<Rightarrow> None
                   | Some n \<Rightarrow> Some (if neg then - int n else int n))))"

text \<open>\<^verbatim>\<open>str(i)\<close> of an integer, which is also what \<^verbatim>\<open>"{}".format(i)\<close> and \<^verbatim>\<open>"%d" % i\<close> print.\<close>

definition digit_char :: "nat \<Rightarrow> char" where
  "digit_char d = ''0123456789'' ! d"

fun str_nat :: "nat \<Rightarrow> string" where
  "str_nat n = (if n < 10 then [digit_char n] else str_nat (n div 10) @ [digit_char (n mod 10)])"

definition str_int :: "int \<Rightarrow> string" where
  "str_int i = (if i < 0 then CHR ''-'' # str_nat (nat (- i)) else str_nat (nat i))"

text \<open>\<^verbatim>\<open>"\x1B[48;2;{};{};{}m ".format(r, g, b)\<close>\<close>

definition rgb_template :: "int \<Rightarrow> int \<Rightarrow> int \<Rightarrow> string" where
  "rgb_template r g b =
     CHR 0x1B # ''[48;2;'' @ str_int r @ '';'' @ str_int g @ '';'' @ str_int b @ ''m ''"


section \<open>The global variables of the main programs\<close>

text \<open>
  The module-level variables that the main loops read and write, under the source's
  names with the prefix \<open>g_\<close>. \<open>g_last_size_check\<close> exists in
  \<^verbatim>\<open>test4_optimized_v2.py\<close> only. \<open>g_debug\<close> lists the strings written to
  \<^verbatim>\<open>debug.txt\<close>, \<open>g_lines\<close> the rows of the last frame that \<^verbatim>\<open>test4.py\<close> wrote to
  the terminal (the header line and the cursor movements between rows are left out).
\<close>

record globals =
  g_mx :: real
  g_b :: real
  g_width :: int
  g_height :: int
  g_minfound :: real
  g_maxfound :: real
  g_mousex :: int
  g_mousey :: int
  g_xoffset :: real
  g_yoffset :: real
  g_zoffset :: real
  g_xvelocity :: real
  g_yvelocity :: real
  g_zvelocity :: real
  g_framecount :: int
  g_last_size_check :: int
  g_debug :: "string list"
  g_lines :: "string list"

text \<open>
  The values the three programs give their variables before the loop; \<open>rows\<close> and
  \<open>cols\<close> are what \<^verbatim>\<open>screen.getmaxyx()\<close> returns, and the top line is kept for the
  header.
\<close>

definition globals_init :: "int \<Rightarrow> int \<Rightarrow> globals" where
  "globals_init rows cols =
     \<lparr>g_mx = 127.5, g_b = 127.5, g_width = cols, g_height = rows - 1,
      g_minfound = 0, g_maxfound = 0, g_mousex = 0, g_mousey = 0,
      g_xoffset = 0, g_yoffset = 0, g_zoffset = 0,
      g_xvelocity = 0.01, g_yvelocity = 0.01, g_zvelocity = 0,
      g_framecount = 0, g_last_size_check = 0, g_debug = [], g_lines = []\<rparr>"

section \<open>Decoding the mouse reports\<close>

text \<open>
  A statement that raises yields \<open>Inl (e, g)\<close>: the exception and the variables as they
  are at that moment.
\<close>

type_synonym 's raising = "(py_error \<times> 's) + 's"

text \<open>A \<^verbatim>\<open>for\<close> loop over a list, left by the first exception.\<close>

fun for_each :: "('s \<Rightarrow> 'a \<Rightarrow> 's raising) \<Rightarrow> 's \<Rightarrow> 'a list \<Rightarrow> 's raising" where
  "for_each body s [] = Inr s"
| "for_each body s (x # xs) =
     (case body s x of
        Inl e \<Rightarrow> Inl e
      | Inr s' \<Rightarrow> for_each body s' xs)"

text \<open>
  \<^verbatim>\<open>test4.py\<close>, the body of \<^verbatim>\<open>for entry in instreamelements1\<close>:
  \<^verbatim>\<open>
  if entry == "":
      continue;
  metainfo = entry.split(";");
  if(metainfo[0] == "35"):
      mousex = int(metainfo[1]);
      mousey = int(metainfo[2]);
  elif(metainfo[0] == "65"):
      zvelocity = zvelocity - 0.01;
  elif(metainfo[0] == "64"):
      zvelocity = zvelocity + 0.01;
  else:
      fh.write(", ".join(metainfo) + "\n");
  \<close>
\<close>

definition process_entry_test4 :: "globals \<Rightarrow> string \<Rightarrow> globals raising" where
  "process_entry_test4 g entry =
     (if entry = [] then Inr g
      else
       (let metainfo = split_on CHR '';'' entry
        in if metainfo ! 0 = ''35'' then
             (if length metainfo \<le> 1 then Inl (IndexError, g)
              else case py_int (metainfo ! 1) of
                     None \<Rightarrow> Inl (ValueError, g)
                   | Some col \<Rightarrow>
                       (let g1 = g\<lparr>g_mousex := col\<rparr>
                        in if length metainfo \<le> 2 then Inl (IndexError, g1)
                           else case py_int (metainfo ! 2) of
                                  None \<Rightarrow> Inl (ValueError, g1)
                                | Some row \<Rightarrow> Inr (g1\<lparr>g_mousey := row\<rparr>)))
           else if metainfo ! 0 = ''65'' then Inr (g\<lparr>g_zvelocity := g_zvelocity g - 0.01\<rparr>)
           else if metainfo ! 0 = ''64'' then Inr (g\<lparr>g_zvelocity := g_zvelocity g + 0.01\<rparr>)
           else Inr (g\<lparr>g_debug := g_debug g @ [join '', '' metainfo @ [CHR 0x0A]]\<rparr>)))"

text \<open>
  \<^verbatim>\<open>
  if instream != "":
      instreamelements1 = instream.replace("\x1b", "").replace("[", "").replace("<", "").split("M")
      for entry in instreamelements1: ...
  \<close>
\<close>

definition instreamelements1 :: "string \<Rightarrow> string list" where
  "instreamelements1 instream =
     split_on CHR ''M'' (remove_char CHR ''<'' (remove_char CHR ''['' (remove_char (CHR 0x1B) instream)))"

definition parse_instream_test4 :: "globals \<Rightarrow> string \<Rightarrow> globals raising" where
  "parse_instream_test4 g instream =
     (if instream \<noteq> [] then for_each process_entry_test4 g (instreamelements1 instream)
      else Inr g)"

text \<open>
  \<^verbatim>\<open>test4_optimized.py\<close>:
  \<^verbatim>\<open>
  if not entry:
      continue
  metainfo = entry.split(";")
  if len(metainfo) >= 3:
      try:
          if metainfo[0] == "35":
              mousex = int(metainfo[1])
              mousey = int(metainfo[2])
          elif metainfo[0] == "65":
              zvelocity -= 0.01
          elif metainfo[0] == "64":
              zvelocity += 0.01
      except (ValueError, IndexError):
          pass  # Ignore malformed input
  \<close>
  \<open>mouse_record\<close> is the body of the \<^verbatim>\<open>try\<close>, which runs on three fields or more,
  and \<open>except_pass\<close> the handler.
\<close>

definition mouse_record :: "globals \<Rightarrow> string list \<Rightarrow> globals raising" where
  "mouse_record g metainfo =
     (if metainfo ! 0 = ''35'' then
        (case py_int (metainfo ! 1) of
           None \<Rightarrow> Inl (ValueError, g)
         | Some col \<Rightarrow>
             (let g1 = g\<lparr>g_mousex := col\<rparr>
              in case py_int (metainfo ! 2) of
                   None \<Rightarrow> Inl (ValueError, g1)
                 | Some row \<Rightarrow> Inr (g1\<lparr>g_mousey := row\<rparr>)))
      else if metainfo ! 0 = ''65'' then Inr (g\<lparr>g_zvelocity := g_zvelocity g - 0.01\<rparr>)
      else if metainfo ! 0 = ''64'' then Inr (g\<lparr>g_zvelocity := g_zvelocity g + 0.01\<rparr>)
      else Inr g)"

definition except_pass :: "globals raising \<Rightarrow> globals raising" where
  "except_pass res =
     (case res of
        Inl (e, g) \<Rightarrow> (if e = ValueError \<or> e = IndexError then Inr g else Inl (e, g))
      | Inr g \<Rightarrow> Inr g)"

definition process_entry_optimized :: "globals \<Rightarrow> string \<Rightarrow> globals raising" where
  "process_entry_optimized g entry =
     (if entry = [] then Inr g
      else
       (let metainfo = split_on CHR '';'' entry
        in if 3 \<le> length metainfo then except_pass (mouse_record g metainfo)
           else Inr g))"

definition parse_instream_optimized :: "globals \<Rightarrow> string \<Rightarrow> globals raising" where
  "parse_instream_optimized g instream =
     (if instream \<noteq> [] then for_each process_entry_optimized g (instreamelements1 instream)
      else Inr g)"

text \<open>
  \<^verbatim>\<open>test4_optimized_v2.py\<close>:
  \<^verbatim>\<open>
  parts = instream.replace("\x1b[<", "").split("M")
  for part in parts:
      if ";" in part:
          try:
              elements = part.split(";")
              if len(elements) >= 3:
                  if elements[0] == "35": ...
          except (ValueError, IndexError):
              continue
  \<close>
\<close>

function remove_sub :: "string \<Rightarrow> string \<Rightarrow> string" where
  "remove_sub pat [] = []"
| "remove_sub pat (c # cs) =
     (if pat \<noteq> [] \<and> take (length pat) (c # cs) = pat
      then remove_sub pat (drop (length pat) (c # cs))
      else c # remove_sub pat cs)"
  by pat_completeness auto
termination
  by (relation "measure (\<lambda>(pat, s). length s)") auto

definition process_part_v2 :: "globals \<Rightarrow> string \<Rightarrow> globals raising" where
  "process_part_v2 g part =
     (if CHR '';'' \<in> set part then
        (let elements = split_on CHR '';'' part
         in if 3 \<le> length elements then except_pass (mouse_record g elements)
            else Inr g)
      else Inr g)"

definition parse_instream_v2 :: "globals \<Rightarrow> string \<Rightarrow> globals raising" where
  "parse_instream_v2 g instream =
     (if instream \<noteq> []
      then for_each process_part_v2 g (split_on CHR ''M'' (remove_sub (CHR 0x1B # ''[<'') instream))
      else Inr g)"


section \<open>Rendering a frame\<close>

subsection \<open>test4.py: the rows are rendered in the main loop\<close>

text \<open>
  \<^verbatim>\<open>
  for y in range(height):
      linedata = "";
      for x in range(width):
          xpos = x/10 + xoffset;
          ypos = y/5 + yoffset;
          zpos = z/5 + zoffset;
          noiseval = float(pnoise3(xpos, ypos, zpos));
          val = noiseval * mx + b;
          if(val > maxval):
              val = maxval
          minfound = min(minfound, noiseval);
          maxfound = max(maxfound, noiseval);
          linedata += "\x1B[48;2;%d;%d;%dm " % (val, 255-val, framecount % 255)
      sys.stdout.write(linedata)
  \<close>
  \<open>z\<close> is 0 and \<open>maxval\<close> is 255 throughout. \<open>val\<close> is a float, which \<^verbatim>\<open>%d\<close>
  truncates. \<open>test4_val\<close> is the value of \<open>val\<close> after the \<^verbatim>\<open>if\<close>.
\<close>

definition test4_val :: "real \<Rightarrow> real \<Rightarrow> real \<Rightarrow> real" where
  "test4_val noiseval mx b = (let val = noiseval * mx + b in if val > 255 then 255 else val)"

fun test4_cells ::
  "(real \<Rightarrow> real \<Rightarrow> real \<Rightarrow> real) \<Rightarrow> nat \<Rightarrow> globals \<Rightarrow> nat list \<Rightarrow> string \<Rightarrow> string \<times> globals" where
  "test4_cells noise y g [] linedata = (linedata, g)"
| "test4_cells noise y g (x # xs) linedata =
     (let xpos = real x / 10 + g_xoffset g;
          ypos = real y / 5 + g_yoffset g;
          zpos = 0 / 5 + g_zoffset g;
          noiseval = noise xpos ypos zpos;
          val = test4_val noiseval (g_mx g) (g_b g);
          g' = g\<lparr>g_minfound := min (g_minfound g) noiseval,
                 g_maxfound := max (g_maxfound g) noiseval\<rparr>
      in test4_cells noise y g' xs
           (linedata @ rgb_template (py_trunc val) (py_trunc (255 - val)) (g_framecount g mod 255)))"

fun test4_rows ::
  "(real \<Rightarrow> real \<Rightarrow> real \<Rightarrow> real) \<Rightarrow> globals \<Rightarrow> nat list \<Rightarrow> globals" where
  "test4_rows noise g [] = g"
| "test4_rows noise g (y # ys) =
     (let (linedata, g') = test4_cells noise y g [0..<nat (g_width g)] []
      in test4_rows noise (g'\<lparr>g_lines := g_lines g' @ [linedata]\<rparr>) ys)"

definition test4_render :: "(real \<Rightarrow> real \<Rightarrow> real \<Rightarrow> real) \<Rightarrow> globals \<Rightarrow> globals" where
  "test4_render noise g = test4_rows noise (g\<lparr>g_lines := []\<rparr>) [0..<nat (g_height g)]"

subsection \<open>test4_optimized.py: NoiseRenderer.render_frame_optimized\<close>

text \<open>
  \<^verbatim>\<open>
  def render_frame_optimized(self, xoffset, yoffset, zoffset, mx, b, framecount):
      self.frame_buffer.clear()
      for y in range(self.height):
          line_parts = self.line_buffers[y]
          line_parts.clear()
          ypos = y/5 + yoffset
          for x in range(self.width):
              xpos = x/10 + xoffset
              zpos = zoffset
              noiseval = self.get_noise_cached(xpos, ypos, zpos)
              val = int(noiseval * mx + b)
              val = min(max(val, 0), 255)
              r, g, b_color = val, 255-val, framecount % 255
              line_parts.append(self.rgb_template.format(r, g, b_color))
          self.frame_buffer.append(''.join(line_parts))
      return self.frame_buffer
  \<close>
  \<open>line_buffers[y]\<close> is emptied before it is filled, and \<open>line_buffers\<close> has
  \<open>height\<close> entries, so the row buffer is the local \<open>line_parts\<close> here. The list
  returned is the renderer's own \<open>frame_buffer\<close>.
\<close>

fun render_cells ::
  "(real \<Rightarrow> real \<Rightarrow> real \<Rightarrow> real) \<Rightarrow> real \<Rightarrow> real \<Rightarrow> real \<Rightarrow> real \<Rightarrow> real \<Rightarrow> int
     \<Rightarrow> NoiseRenderer \<Rightarrow> nat list \<Rightarrow> string list \<Rightarrow> string list \<times> NoiseRenderer" where
  "render_cells noise xoffset ypos zoffset mx b framecount r [] line_parts = (line_parts, r)"
| "render_cells noise xoffset ypos zoffset mx b framecount r (x # xs) line_parts =
     (let xpos = real x / 10 + xoffset;
          zpos = zoffset;
          (noiseval, r') = get_noise_cached noise r xpos ypos zpos;
          val = py_trunc (noiseval * mx + b);
          val = min (max val 0) 255
      in render_cells noise xoffset ypos zoffset mx b framecount r' xs
           (line_parts @ [rgb_template val (255 - val) (framecount mod 255)]))"

fun render_rows ::
  "(real \<Rightarrow> real \<Rightarrow> real \<Rightarrow> real) \<Rightarrow> real \<Rightarrow> real \<Rightarrow> real \<Rightarrow> real \<Rightarrow> real \<Rightarrow> int
     \<Rightarrow> NoiseRenderer \<Rightarrow> nat list \<Rightarrow> NoiseRenderer" where
  "render_rows noise xoffset yoffset zoffset mx b framecount r [] = r"
| "render_rows noise xoffset yoffset zoffset mx b framecount r (y # ys) =
     (let ypos = real y / 5 + yoffset;
          (line_parts, r') =
             render_cells noise xoffset ypos zoffset mx b framecount r [0..<width r] []
      in render_rows noise xoffset yoffset zoffset mx b framecount
           (r'\<lparr>frame_buffer := frame_buffer r' @ [concat line_parts]\<rparr>) ys)"

definition render_frame_optimized ::
  "(real \<Rightarrow> real \<Rightarrow> real \<Rightarrow> real) \<Rightarrow> NoiseRenderer \<Rightarrow> real \<Rightarrow> real \<Rightarrow> real \<Rightarrow> real \<Rightarrow> real \<Rightarrow> int
     \<Rightarrow> string list \<times> NoiseRenderer" where
  "render_frame_optimized noise r xoffset yoffset zoffset mx b framecount =
     (let r' = render_rows noise xoffset yoffset zoffset mx b framecount
                 (r\<lparr>frame_buffer := []\<rparr>) [0..<height r]
      in (frame_buffer r', r'))"

subsection \<open>test4_optimized_v2.py: OptimizedNoiseRenderer.render_frame_fast\<close>

text \<open>
  \<^verbatim>\<open>
  def render_frame_fast(self, xoffset, yoffset, zoffset, mx, b, framecount):
      self.output_parts.clear()
      for y in range(self.height):
          ypos = y/5 + yoffset
          line_parts = []
          for x in range(self.width):
              xpos = x/10 + xoffset
              noiseval = self.get_noise_optimized(xpos, ypos, zoffset)
              val = int(noiseval * mx + b)
              if val < 0:
                  val = 0
              elif val > 255:
                  val = 255
              r, g, b_color = val, 255-val, framecount % 255
              line_parts.append(f"{self.escape_start}{r};{g};{b_color}{self.escape_end}")
          self.output_parts.append(''.join(line_parts))
      return self.output_parts
  \<close>
  \<open>escape_start\<close> is \<^verbatim>\<open>"\x1B[48;2;"\<close> and \<open>escape_end\<close> is \<^verbatim>\<open>"m "\<close>, so the
  f-string is the text of \<open>rgb_template\<close>.
\<close>

fun fast_cells ::
  "(real \<Rightarrow> real \<Rightarrow> real \<Rightarrow> real) \<Rightarrow> real \<Rightarrow> real \<Rightarrow> real \<Rightarrow> real \<Rightarrow> real \<Rightarrow> int
     \<Rightarrow> OptimizedNoiseRenderer \<Rightarrow> nat list \<Rightarrow> string list \<Rightarrow> string list \<times> OptimizedNoiseRenderer" where
  "fast_cells noise xoffset ypos zoffset mx b framecount r [] line_parts = (line_parts, r)"
| "fast_cells noise xoffset ypos zoffset mx b framecount r (x # xs) line_parts =
     (let xpos = real x / 10 + xoffset;
          (noiseval, r') = get_noise_optimized noise r xpos ypos zoffset;
          val = py_trunc (noiseval * mx + b);
          val = (if val < 0 then 0 else if val > 255 then 255 else val)
      in fast_cells noise xoffset ypos zoffset mx b framecount r' xs
           (line_parts @ [rgb_template val (255 - val) (framecount mod 255)]))"

fun fast_rows ::
  "(real \<Rightarrow> real \<Rightarrow> real \<Rightarrow> real) \<Rightarrow> real \<Rightarrow> real \<Rightarrow> real \<Rightarrow> real \<Rightarrow> real \<Rightarrow> int
     \<Rightarrow> OptimizedNoiseRenderer \<Rightarrow> nat list \<Rightarrow> OptimizedNoiseRenderer" where
  "fast_rows noise xoffset yoffset zoffset mx b framecount r [] = r"
| "fast_rows noise xoffset yoffset zoffset mx b framecount r (y # ys) =
     (let ypos = real y / 5 + yoffset;
          (line_parts, r') =
             fast_cells noise xoffset ypos zoffset mx b framecount r [0..<v2_width r] []
      in fast_rows noise xoffset yoffset zoffset mx b framecount
           (r'\<lparr>output_parts := output_parts r' @ [concat line_parts]\<rparr>) ys)"

definition render_frame_fast ::
  "(real \<Rightarrow> real \<Rightarrow> real \<Rightarrow> real) \<Rightarrow> OptimizedNoiseRenderer \<Rightarrow> real \<Rightarrow> real \<Rightarrow> real \<Rightarrow> real \<Rightarrow> real \<Rightarrow> int
     \<Rightarrow> string list \<times> OptimizedNoiseRenderer" where
  "render_frame_fast noise r xoffset yoffset zoffset mx b framecount =
     (let r' = fast_rows noise xoffset yoffset zoffset mx b framecount
                 (r\<lparr>output_parts := []\<rparr>) [0..<v2_height r]
      in (output_parts r', r'))"


section \<open>The main loops\<close>

text \<open>
  What one pass of \<^verbatim>\<open>while True\<close> reads from outside: the key from
  \<^verbatim>\<open>screen.getch()\<close>, the result \<open>(rows, cols)\<close> of \<^verbatim>\<open>screen.getmaxyx()\<close> and the
  characters waiting on standard input. Clock, sleep and the header line (which prints
  the frame rate) are left out: no variable of the model depends on them.
\<close>

record frame_input =
  in_event :: int
  in_maxyx :: "int \<times> int"
  in_instream :: string

text \<open>
  One pass of the loop ends at the bottom of the body, at \<^verbatim>\<open>break\<close>, or with an
  exception that nothing catches.
\<close>

datatype 's outcome = Continue 's | Break 's | Raised py_error 's

fun run :: "('i \<Rightarrow> 's \<Rightarrow> 's outcome) \<Rightarrow> 's \<Rightarrow> 'i list \<Rightarrow> 's outcome" where
  "run body s [] = Continue s"
| "run body s (i # is) =
     (case body i s of
        Continue s' \<Rightarrow> run body s' is
      | Break s' \<Rightarrow> Break s'
      | Raised e s' \<Rightarrow> Raised e s')"

text \<open>
  The velocity lines shared by \<^verbatim>\<open>test4.py\<close> and \<^verbatim>\<open>test4_optimized.py\<close>:
  \<^verbatim>\<open>
  xcentre = width/2
  [Xmx, Xb] = mxplusb(-1, 0, 1, width)
  xvelocity = mousex * Xmx + Xb
  ycentre = height/2
  [Ymx, Yb] = mxplusb(-1, 0, 1, height)
  yvelocity = mousey * Ymx + Yb
  xoffset += xvelocity
  yoffset += yvelocity
  zoffset += zvelocity
  \<close>
\<close>

definition update_velocity :: "globals \<Rightarrow> globals raising" where
  "update_velocity g =
     (case mxplusb (- 1) 0 1 (real_of_int (g_width g)) of
        Inl e \<Rightarrow> Inl (e, g)
      | Inr (Xmx, Xb) \<Rightarrow>
          (let g1 = g\<lparr>g_xvelocity := real_of_int (g_mousex g) * Xmx + Xb\<rparr>
           in case mxplusb (- 1) 0 1 (real_of_int (g_height g1)) of
                Inl e \<Rightarrow> Inl (e, g1)
              | Inr (Ymx, Yb) \<Rightarrow>
                  (let g2 = g1\<lparr>g_yvelocity := real_of_int (g_mousey g1) * Ymx + Yb\<rparr>
                   in Inr (g2\<lparr>g_xoffset := g_xoffset g2 + g_xvelocity g2,
                              g_yoffset := g_yoffset g2 + g_yvelocity g2,
                              g_zoffset := g_zoffset g2 + g_zvelocity g2\<rparr>))))"

text \<open>
  \<^verbatim>\<open>test4_optimized_v2.py\<close>:
  \<^verbatim>\<open>
  xcentre = width/2
  ycentre = height/2
  xvelocity = (mousex - xcentre) * 0.001
  yvelocity = (mousey - ycentre) * 0.001
  xoffset += xvelocity
  yoffset += yvelocity
  zoffset += zvelocity
  \<close>
\<close>

definition update_velocity_v2 :: "globals \<Rightarrow> globals" where
  "update_velocity_v2 g =
     (let xcentre = real_of_int (g_width g) / 2;
          ycentre = real_of_int (g_height g) / 2;
          g1 = g\<lparr>g_xvelocity := (real_of_int (g_mousex g) - xcentre) * 0.001,
                 g_yvelocity := (real_of_int (g_mousey g) - ycentre) * 0.001\<rparr>
      in g1\<lparr>g_xoffset := g_xoffset g1 + g_xvelocity g1,
            g_yoffset := g_yoffset g1 + g_yvelocity g1,
            g_zoffset := g_zoffset g1 + g_zvelocity g1\<rparr>)"

text \<open>
  \<^verbatim>\<open>[mx, b] = mxplusb(0, minfound, 255, maxfound)\<close>, the recalibration of the
  dynamic range.
\<close>

definition recalibrate :: "globals \<Rightarrow> globals raising" where
  "recalibrate g =
     (case mxplusb 0 (g_minfound g) 255 (g_maxfound g) of
        Inl e \<Rightarrow> Inl (e, g)
      | Inr (m, b) \<Rightarrow> Inr (g\<lparr>g_mx := m, g_b := b\<rparr>))"

subsection \<open>test4.py\<close>

text \<open>
  The pass: count the frame, read the screen size, decode the input, leave on \<open>q\<close>
  (\<open>ord("q")\<close> is 113), update velocities and offsets, render, recalibrate (every frame).
\<close>

definition loop_body_test4 ::
  "(real \<Rightarrow> real \<Rightarrow> real \<Rightarrow> real) \<Rightarrow> frame_input \<Rightarrow> globals \<Rightarrow> globals outcome" where
  "loop_body_test4 noise inp g =
     (let g1 = g\<lparr>g_framecount := g_framecount g + 1\<rparr>;
          g2 = g1\<lparr>g_height := fst (in_maxyx inp) - 1, g_width := snd (in_maxyx inp)\<rparr>
      in case parse_instream_test4 g2 (in_instream inp) of
           Inl (e, g3) \<Rightarrow> Raised e g3
         | Inr g3 \<Rightarrow>
             (if in_event inp = 113 then Break g3
              else case update_velocity g3 of
                     Inl (e, g4) \<Rightarrow> Raised e g4
                   | Inr g4 \<Rightarrow>
                       (let g5 = test4_render noise g4
                        in case recalibrate g5 of
                             Inl (e, g6) \<Rightarrow> Raised e g6
                           | Inr g6 \<Rightarrow> Continue g6)))"

subsection \<open>test4_optimized.py\<close>

text \<open>
  The screen size is read every 30th frame, and a change of size makes a new renderer.
  \<^verbatim>\<open>
  frame_lines = renderer.render_frame_optimized(xoffset, yoffset, zoffset, mx, b, framecount)
  ...
  if framecount % 10 == 0:
      [mx, b] = mxplusb(0, minfound, 255, maxfound)
  \<close>
  The rendered rows are the renderer's \<open>frame_buffer\<close>.
\<close>

definition loop_body_optimized ::
  "(real \<Rightarrow> real \<Rightarrow> real \<Rightarrow> real) \<Rightarrow> frame_input \<Rightarrow> globals \<times> NoiseRenderer
     \<Rightarrow> (globals \<times> NoiseRenderer) outcome" where
  "loop_body_optimized noise inp s =
     (let (g, renderer) = s;
          g1 = g\<lparr>g_framecount := g_framecount g + 1\<rparr>;
          (g2, renderer2) =
            (if g_framecount g1 mod 30 = 0
             then (let g' = g1\<lparr>g_height := fst (in_maxyx inp) - 1, g_width := snd (in_maxyx inp)\<rparr>
                   in if int (width renderer) \<noteq> g_width g' \<or> int (height renderer) \<noteq> g_height g'
                      then (g', NoiseRenderer_init (nat (g_width g')) (nat (g_height g')))
                      else (g', renderer))
             else (g1, renderer))
      in case parse_instream_optimized g2 (in_instream inp) of
           Inl (e, g3) \<Rightarrow> Raised e (g3, renderer2)
         | Inr g3 \<Rightarrow>
             (if in_event inp = 113 then Break (g3, renderer2)
              else case update_velocity g3 of
                     Inl (e, g4) \<Rightarrow> Raised e (g4, renderer2)
                   | Inr g4 \<Rightarrow>
                       (let (frame_lines, renderer3) =
                              render_frame_optimized noise renderer2 (g_xoffset g4) (g_yoffset g4)
                                (g_zoffset g4) (g_mx g4) (g_b g4) (g_framecount g4)
                        in if g_framecount g4 mod 10 = 0
                           then (case recalibrate g4 of
                                   Inl (e, g5) \<Rightarrow> Raised e (g5, renderer3)
                                 | Inr g5 \<Rightarrow> Continue (g5, renderer3))
                           else Continue (g4, renderer3))))"

subsection \<open>test4_optimized_v2.py\<close>

text \<open>
  \<^verbatim>\<open>
  if framecount - last_size_check > 30:
      new_height, new_width = screen.getmaxyx()
      new_height = new_height - 1
      if new_width != width or new_height != height:
          width, height = new_width, new_height
          renderer = OptimizedNoiseRenderer(width, height)
      last_size_check = framecount
  \<close>
\<close>

definition loop_body_v2 ::
  "(real \<Rightarrow> real \<Rightarrow> real \<Rightarrow> real) \<Rightarrow> frame_input \<Rightarrow> globals \<times> OptimizedNoiseRenderer
     \<Rightarrow> (globals \<times> OptimizedNoiseRenderer) outcome" where
  "loop_body_v2 noise inp s =
     (let (g, renderer) = s;
          g1 = g\<lparr>g_framecount := g_framecount g + 1\<rparr>;
          (g2, renderer2) =
            (if g_framecount g1 - g_last_size_check g1 > 30
             then (let new_height = fst (in_maxyx inp) - 1;
                       new_width = snd (in_maxyx inp);
                       (g', renderer') =
                          (if new_width \<noteq> g_width g1 \<or> new_height \<noteq> g_height g1
                           then (g1\<lparr>g_width := new_width, g_height := new_height\<rparr>,
                                 OptimizedNoiseRenderer_init (nat new_width) (nat new_height))
                           else (g1, renderer))
                   in (g'\<lparr>g_last_size_check := g_framecount g'\<rparr>, renderer'))
             else (g1, renderer))
      in case parse_instream_v2 g2 (in_instream inp) of
           Inl (e, g3) \<Rightarrow> Raised e (g3, renderer2)
         | Inr g3 \<Rightarrow>
             (if in_event inp = 113 then Break (g3, renderer2)
              else (let g4 = update_velocity_v2 g3;
                        (frame_lines, renderer3) =
                              render_frame_fast noise renderer2 (g_xoffset g4) (g_yoffset g4)
                                (g_zoffset g4) (g_mx g4) (g_b g4) (g_framecount g4)
                    in if g_framecount g4 mod 10 = 0
                       then (case recalibrate g4 of
                               Inl (e, g5) \<Rightarrow> Raised e (g5, renderer3)
                             | Inr g5 \<Rightarrow> Continue (g5, renderer3))
                       else Continue (g4, renderer3))))"

text \<open>The states in which the loops start, for a terminal of \<open>rows\<close> by \<open>cols\<close>.\<close>

definition start_optimized :: "int \<Rightarrow> int \<Rightarrow> globals \<times> NoiseRenderer" where
  "start_optimized rows cols =
     (globals_init rows cols, NoiseRenderer_init (nat cols) (nat (rows - 1)))"

definition start_v2 :: "int \<Rightarrow> int \<Rightarrow> globals \<times> OptimizedNoiseRenderer" where
  "start_v2 rows cols =
     (globals_init rows cols, OptimizedNoiseRenderer_init (nat cols) (nat (rows - 1)))"

section \<open>Notions used in the statements\<close>

text \<open>
  What the decoders and the velocity lines leave alone: among others the observed
  extrema, the frame count and the size of the screen.
\<close>

definition same_extrema :: "globals \<Rightarrow> globals \<Rightarrow> bool" where
  "same_extrema g g' =
     (g_minfound g' = g_minfound g \<and> g_maxfound g' = g_maxfound g
      \<and> g_framecount g' = g_framecount g \<and> g_width g' = g_width g \<and> g_height g' = g_height g)"

text \<open>The observed extrema are both still 0, their initial value.\<close>

definition flat :: "globals \<Rightarrow> bool" where
  "flat g = (g_minfound g = 0 \<and> g_maxfound g = 0)"

text \<open>
  The chunk of the decoder example in the specification:
  \<^verbatim>\<open>"\x1b[<35;10;5M\x1b[<64M\x1b[<garbageM"\<close>.
\<close>

definition decoder_example :: string where
  "decoder_example = CHR 0x1B # ''[<35;10;5M'' @ CHR 0x1B # ''[<64M'' @ CHR 0x1B # ''[<garbageM''"







text \<open>The noise value of the cell \<open>(x, y)\<close> in the frame \<^verbatim>\<open>test4.py\<close> renders from \<open>g\<close>.\<close>

definition test4_sample :: "(real \<Rightarrow> real \<Rightarrow> real \<Rightarrow> real) \<Rightarrow> globals \<Rightarrow> nat \<Rightarrow> nat \<Rightarrow> real" where
  "test4_sample noise g x y =
     noise (real x / 10 + g_xoffset g) (real y / 5 + g_yoffset g) (0 / 5 + g_zoffset g)"

text \<open>Rendering a frame of \<^verbatim>\<open>test4.py\<close> moves neither the offsets nor the screen size.\<close>

definition same_view :: "globals \<Rightarrow> globals \<Rightarrow> bool" where
  "same_view g g' =
     (g_xoffset g' = g_xoffset g \<and> g_yoffset g' = g_yoffset g \<and> g_zoffset g' = g_zoffset g
      \<and> g_width g' = g_width g \<and> g_height g' = g_height g)"

text \<open>
  The token \<^verbatim>\<open>test4.py\<close> writes for a cell with noise value \<open>v\<close>: \<^verbatim>\<open>%d\<close> truncates
  the floats \<open>val\<close> and \<open>255 - val\<close>.
\<close>

definition test4_token :: "globals \<Rightarrow> real \<Rightarrow> string" where
  "test4_token g v =
     rgb_template (py_trunc (test4_val v (g_mx g) (g_b g)))
       (py_trunc (255 - test4_val v (g_mx g) (g_b g))) (g_framecount g mod 255)"

text \<open>Rendering a frame of \<^verbatim>\<open>test4.py\<close> moves neither slope, intercept nor frame count.\<close>

definition same_mapping :: "globals \<Rightarrow> globals \<Rightarrow> bool" where
  "same_mapping g g' =
     (g_mx g' = g_mx g \<and> g_b g' = g_b g \<and> g_framecount g' = g_framecount g)"


text \<open>
  The decoder as a function from a chunk to a list of events, in the words of the
  specification (section 4.4) and with the cases in which \<^verbatim>\<open>test4_optimized.py\<close>
  departs from it: the markers ESC, \<open>[\<close> and \<open><\<close> are dropped from the chunk, the rest
  is cut at every \<open>M\<close>, and every segment that is not empty yields one event. A segment
  with fewer than three fields is unrecognized; a move record whose column is no integer
  is unrecognized, one whose row is no integer moves the column only; the fields after a
  wheel code are not looked at; any other code is unrecognized. The events stand for
  their effect on the state: a wheel-up record (code 64) adds 0.01 to \<open>zvelocity\<close>, a
  wheel-down record (code 65) takes 0.01 from it.
\<close>

datatype mouse_event = Move int int | MoveColumn int | WheelUp | WheelDown | Unrecognized

definition spec_segments :: "string \<Rightarrow> string list" where
  "spec_segments chunk =
     filter (\<lambda>segment. segment \<noteq> [])
       (split_on CHR ''M'' (filter (\<lambda>c. c \<notin> set [CHR 0x1B, CHR ''['', CHR ''<'']) chunk))"

definition spec_classify :: "string \<Rightarrow> mouse_event" where
  "spec_classify segment =
     (let fields = split_on CHR '';'' segment
      in if length fields < 3 then Unrecognized
         else if hd fields = ''35'' then
           (case py_int (fields ! 1) of
              None \<Rightarrow> Unrecognized
            | Some col \<Rightarrow>
                (case py_int (fields ! 2) of
                   None \<Rightarrow> MoveColumn col
                 | Some row \<Rightarrow> Move col row))
         else if hd fields = ''64'' then WheelUp
         else if hd fields = ''65'' then WheelDown
         else Unrecognized)"

definition spec_decode :: "string \<Rightarrow> mouse_event list" where
  "spec_decode chunk = map spec_classify (spec_segments chunk)"

fun spec_apply :: "globals \<Rightarrow> mouse_event \<Rightarrow> globals" where
  "spec_apply g (Move col row) = g\<lparr>g_mousex := col, g_mousey := row\<rparr>"
| "spec_apply g (MoveColumn col) = g\<lparr>g_mousex := col\<rparr>"
| "spec_apply g WheelUp = g\<lparr>g_zvelocity := g_zvelocity g + 0.01\<rparr>"
| "spec_apply g WheelDown = g\<lparr>g_zvelocity := g_zvelocity g - 0.01\<rparr>"
| "spec_apply g Unrecognized = g"

section \<open>Python floats as IEEE doubles\<close>

text \<open>
  A Python float is an IEEE 754 binary64 number. Where a statement depends on the
  rounding, a double is the real number it stands for, and an operation returns the
  exact result rounded to 53 significant bits, ties going to the even neighbour. The
  range of the exponent is left out (no overflow, no subnormal numbers).

  \<open>bit_length\<close> is \<^verbatim>\<open>int.bit_length\<close>, the number of binary digits (\<open>num_bits\<close>
  counts the digits of a binary numeral), \<open>floor_log2 x\<close> the exponent \<open>e\<close> with
  \<open>2 ^ e \<le> x < 2 ^ (e + 1)\<close> for a positive \<open>x\<close>, \<open>ldexp x e\<close> is \<open>x * 2 ^ e\<close> as
  \<^verbatim>\<open>math.ldexp\<close>, and \<open>fl_round x\<close> is the double closest to \<open>x\<close>.
\<close>

primrec num_bits :: "num \<Rightarrow> nat" where
  "num_bits num.One = 1"
| "num_bits (num.Bit0 k) = Suc (num_bits k)"
| "num_bits (num.Bit1 k) = Suc (num_bits k)"

definition bit_length :: "nat \<Rightarrow> nat" where
  "bit_length n = (if n = 0 then 0 else num_bits (num_of_nat n))"

definition floor_log2 :: "real \<Rightarrow> int" where
  "floor_log2 x =
     (if 1 \<le> x then int (bit_length (nat \<lfloor>x\<rfloor>)) - 1
      else - int (bit_length (nat (\<lceil>1 / x\<rceil> - 1))))"

definition ldexp :: "real \<Rightarrow> int \<Rightarrow> real" where
  "ldexp x e = (if 0 \<le> e then x * 2 ^ nat e else x / 2 ^ nat (- e))"

definition fl_round :: "real \<Rightarrow> real" where
  "fl_round x =
     (if x = 0 then 0
      else (let e = floor_log2 \<bar>x\<bar> - 52
            in ldexp (of_int (round_half_even (ldexp x (- e)))) e))"

text \<open>
  The velocity lines of \<^verbatim>\<open>test4.py\<close> and \<^verbatim>\<open>test4_optimized.py\<close> in double
  arithmetic. \<^verbatim>\<open>mxplusb\<close> is called with integers there: \<^verbatim>\<open>exp2 - exp1\<close> and
  \<^verbatim>\<open>act2 - act1\<close> are exact, their quotient is the exact quotient rounded once, and an
  integer operand of a float operation is converted to a float first.
\<close>

definition mxplusb_double :: "int \<Rightarrow> int \<Rightarrow> int \<Rightarrow> int \<Rightarrow> py_error + real \<times> real" where
  "mxplusb_double exp1 act1 exp2 act2 =
     (if act2 - act1 = 0 then Inl ZeroDivisionError
      else (let m = fl_round (of_int (exp2 - exp1) / of_int (act2 - act1));
                b = fl_round (fl_round (of_int exp1) - fl_round (m * fl_round (of_int act1)))
            in Inr (m, b)))"

definition update_velocity_double :: "globals \<Rightarrow> globals raising" where
  "update_velocity_double g =
     (case mxplusb_double (- 1) 0 1 (g_width g) of
        Inl e \<Rightarrow> Inl (e, g)
      | Inr (Xmx, Xb) \<Rightarrow>
          (let g1 = g\<lparr>g_xvelocity :=
                          fl_round (fl_round (fl_round (of_int (g_mousex g)) * Xmx) + Xb)\<rparr>
           in case mxplusb_double (- 1) 0 1 (g_height g1) of
                Inl e \<Rightarrow> Inl (e, g1)
              | Inr (Ymx, Yb) \<Rightarrow>
                  (let g2 = g1\<lparr>g_yvelocity :=
                                   fl_round (fl_round (fl_round (of_int (g_mousey g1)) * Ymx) + Yb)\<rparr>
                   in Inr (g2\<lparr>g_xoffset := fl_round (g_xoffset g2 + g_xvelocity g2),
                              g_yoffset := fl_round (g_yoffset g2 + g_yvelocity g2),
                              g_zoffset := fl_round (g_zoffset g2 + g_zvelocity g2)\<rparr>))))"

text \<open>
  The velocity lines of \<^verbatim>\<open>test4_optimized_v2.py\<close> in double arithmetic; \<^verbatim>\<open>0.001\<close>
  is the double closest to 1/1000.
\<close>

definition update_velocity_v2_double :: "globals \<Rightarrow> globals" where
  "update_velocity_v2_double g =
     (let xcentre = fl_round (of_int (g_width g) / 2);
          ycentre = fl_round (of_int (g_height g) / 2);
          g1 = g\<lparr>g_xvelocity :=
                    fl_round (fl_round (fl_round (of_int (g_mousex g)) - xcentre) * fl_round (1 / 1000)),
                 g_yvelocity :=
                    fl_round (fl_round (fl_round (of_int (g_mousey g)) - ycentre) * fl_round (1 / 1000))\<rparr>
      in g1\<lparr>g_xoffset := fl_round (g_xoffset g1 + g_xvelocity g1),
            g_yoffset := fl_round (g_yoffset g1 + g_yvelocity g1),
            g_zoffset := fl_round (g_zoffset g1 + g_zvelocity g1)\<rparr>)"

section \<open>The cache: size bound, repeated lookups, eviction\<close>

lemma dict_del_all_drop:
  "distinct (map fst d) \<Longrightarrow> dict_del_all (take n (map fst d)) d = drop n d"
proof (induction d arbitrary: n)
  case Nil
  then show ?case by (simp add: dict_del_all_def)
next
  case (Cons e d)
  show ?case
  proof (cases n)
    case 0
    then show ?thesis by (simp add: dict_del_all_def)
  next
    case (Suc m)
    from Cons.prems have notin: "fst e \<notin> set (map fst d)" and dist: "distinct (map fst d)"
      by simp_all
    have "filter (\<lambda>e'. fst e' \<noteq> fst e) d = d"
      using notin by (induction d) auto
    then have "dict_del (fst e) (e # d) = d"
      by (simp add: dict_del_def)
    then have "dict_del_all (take n (map fst (e # d))) (e # d) = dict_del_all (take m (map fst d)) d"
      using Suc by (simp add: dict_del_all_def)
    then show ?thesis using Cons.IH[OF dist, of m] Suc by simp
  qed
qed

lemma dict_set_new:
  "map_of d k = None \<Longrightarrow> dict_set k v d = d @ [(k, v)]"
  by (simp add: dict_set_def map_of_eq_None_iff)

lemma get_noise_cached_hit:
  "map_of (noise_cache r) (cache_key (x, y, z)) = Some v \<Longrightarrow> get_noise_cached noise r x y z = (v, r)"
  by (simp add: get_noise_cached_def cache_key_def)

lemma map_of_drop_None: "map_of d k = None \<Longrightarrow> map_of (drop n d) k = None"
  by (auto simp: map_of_eq_None_iff dest: in_set_dropD)

lemma get_noise_cached_miss:
  assumes "map_of (noise_cache r) (cache_key (x, y, z)) = None" and "distinct (map fst (noise_cache r))"
  shows "get_noise_cached noise r x y z =
     (noise x y z,
      r\<lparr>noise_calls := noise_calls r @ [(x, y, z)],
        noise_cache := (if cache_max_size r \<le> length (noise_cache r)
                        then drop (cache_max_size r div 5) (noise_cache r) else noise_cache r)
                       @ [(cache_key (x, y, z), noise x y z)]\<rparr>)"
  using assms
  by (simp add: get_noise_cached_def cache_key_def Let_def dict_del_all_drop dict_set_new map_of_drop_None)

lemma get_noise_optimized_hit:
  "enable_cache r \<Longrightarrow> map_of (v2_noise_cache r) (v2_cache_key (x, y, z)) = Some v \<Longrightarrow>
   get_noise_optimized noise r x y z = (v, r\<lparr>cache_hits := cache_hits r + 1\<rparr>)"
  by (simp add: get_noise_optimized_def v2_cache_key_def)

lemma get_noise_optimized_miss:
  assumes "enable_cache r"
    and "map_of (v2_noise_cache r) (v2_cache_key (x, y, z)) = None"
    and "distinct (map fst (v2_noise_cache r))"
  shows "get_noise_optimized noise r x y z =
     (noise x y z,
      r\<lparr>v2_noise_calls := v2_noise_calls r @ [(x, y, z)],
        cache_misses := cache_misses r + 1,
        v2_noise_cache := (if v2_cache_max_size r \<le> length (v2_noise_cache r)
                        then drop (v2_cache_max_size r div 2) (v2_noise_cache r) else v2_noise_cache r)
                       @ [(v2_cache_key (x, y, z), noise x y z)]\<rparr>)"
  using assms
  by (simp add: get_noise_optimized_def v2_cache_key_def Let_def dict_del_all_drop dict_set_new map_of_drop_None)

lemma cache_ok_init: "cache_ok (NoiseRenderer_init w h)"
  by (simp add: cache_ok_def NoiseRenderer_init_def)

lemma get_noise_cached_cases:
  assumes "cache_ok r"
  obtains (hit) v where "map_of (noise_cache r) (cache_key (x, y, z)) = Some v"
      "get_noise_cached noise r x y z = (v, r)"
  | (miss) "map_of (noise_cache r) (cache_key (x, y, z)) = None"
      "get_noise_cached noise r x y z =
        (noise x y z,
         r\<lparr>noise_calls := noise_calls r @ [(x, y, z)],
           noise_cache := (if cache_max_size r \<le> length (noise_cache r)
                        then drop (cache_max_size r div 5) (noise_cache r) else noise_cache r)
                       @ [(cache_key (x, y, z), noise x y z)]\<rparr>)"
proof (cases "map_of (noise_cache r) (cache_key (x, y, z))")
  case None
  then show ?thesis using miss get_noise_cached_miss assms by (simp add: cache_ok_def)
next
  case (Some v)
  then show ?thesis using hit get_noise_cached_hit by simp
qed

lemma map_of_None_notin: "map_of d k = None \<Longrightarrow> k \<notin> fst ` set d"
  by (simp add: map_of_eq_None_iff)

lemma get_noise_cached_ok:
  assumes "cache_ok r"
  shows "cache_ok (snd (get_noise_cached noise r x y z))"
  using assms
proof (cases rule: get_noise_cached_cases[where x=x and y=y and z=z and noise=noise])
  case (hit v)
  then show ?thesis using assms by simp
next
  case miss
  have "cache_key (x, y, z) \<notin> fst ` set (drop n (noise_cache r))" for n
    using miss(1) by (auto simp: map_of_eq_None_iff dest: in_set_dropD)
  moreover have "distinct (map fst (drop n (noise_cache r)))" for n
    using assms by (simp add: cache_ok_def distinct_drop flip: drop_map)
  ultimately show ?thesis using miss assms
    by (auto simp: cache_ok_def map_of_eq_None_iff)
qed

lemma get_noise_cached_max:
  "cache_max_size (snd (get_noise_cached noise r x y z)) = cache_max_size r"
  by (simp add: get_noise_cached_def Let_def split: option.splits)

lemma get_noise_cached_bound:
  assumes "cache_ok r" and "5 \<le> cache_max_size r" and "length (noise_cache r) \<le> cache_max_size r"
  shows "length (noise_cache (snd (get_noise_cached noise r x y z))) \<le> cache_max_size r"
  using assms(1)
proof (cases rule: get_noise_cached_cases[where x=x and y=y and z=z and noise=noise])
  case (hit v)
  then show ?thesis using assms by simp
next
  case miss
  have "1 \<le> cache_max_size r div 5" using assms(2) by simp
  then show ?thesis using miss assms by auto
qed

lemma lookups_inv:
  assumes "cache_ok r" and "5 \<le> cache_max_size r" and "length (noise_cache r) \<le> cache_max_size r"
  shows "cache_ok (lookups noise r cs) \<and> cache_max_size (lookups noise r cs) = cache_max_size r
     \<and> length (noise_cache (lookups noise r cs)) \<le> cache_max_size r"
  using assms
proof (induction cs arbitrary: r)
  case Nil
  then show ?case by simp
next
  case (Cons c cs)
  obtain x y z where c: "c = (x, y, z)" by (cases c) auto
  let ?r = "snd (get_noise_cached noise r x y z)"
  have "cache_ok ?r" "5 \<le> cache_max_size ?r" "length (noise_cache ?r) \<le> cache_max_size ?r"
    using Cons.prems get_noise_cached_ok get_noise_cached_max get_noise_cached_bound by simp_all
  from Cons.IH[OF this] show ?case by (simp add: c get_noise_cached_max)
qed

lemma v2_cache_ok_init: "v2_cache_ok (OptimizedNoiseRenderer_init w h)"
  by (simp add: v2_cache_ok_def OptimizedNoiseRenderer_init_def)

lemma get_noise_optimized_cases:
  assumes "v2_cache_ok r"
  obtains (hit) v where "map_of (v2_noise_cache r) (v2_cache_key (x, y, z)) = Some v"
      "get_noise_optimized noise r x y z = (v, r\<lparr>cache_hits := cache_hits r + 1\<rparr>)"
  | (miss) "map_of (v2_noise_cache r) (v2_cache_key (x, y, z)) = None"
      "get_noise_optimized noise r x y z =
        (noise x y z,
         r\<lparr>v2_noise_calls := v2_noise_calls r @ [(x, y, z)],
           cache_misses := cache_misses r + 1,
           v2_noise_cache := (if v2_cache_max_size r \<le> length (v2_noise_cache r)
                        then drop (v2_cache_max_size r div 2) (v2_noise_cache r) else v2_noise_cache r)
                       @ [(v2_cache_key (x, y, z), noise x y z)]\<rparr>)"
proof (cases "map_of (v2_noise_cache r) (v2_cache_key (x, y, z))")
  case None
  then show ?thesis using miss get_noise_optimized_miss assms by (simp add: v2_cache_ok_def)
next
  case (Some v)
  then show ?thesis using hit get_noise_optimized_hit assms by (simp add: v2_cache_ok_def)
qed

lemma get_noise_optimized_ok:
  assumes "v2_cache_ok r"
  shows "v2_cache_ok (snd (get_noise_optimized noise r x y z))"
  using assms
proof (cases rule: get_noise_optimized_cases[where x=x and y=y and z=z and noise=noise])
  case (hit v)
  then show ?thesis using assms by (simp add: v2_cache_ok_def)
next
  case miss
  have "v2_cache_key (x, y, z) \<notin> fst ` set (drop n (v2_noise_cache r))" for n
    using miss(1) by (auto simp: map_of_eq_None_iff dest: in_set_dropD)
  moreover have "distinct (map fst (drop n (v2_noise_cache r)))" for n
    using assms by (simp add: v2_cache_ok_def distinct_drop flip: drop_map)
  ultimately show ?thesis using miss assms
    by (auto simp: v2_cache_ok_def map_of_eq_None_iff)
qed

lemma get_noise_optimized_max:
  "v2_cache_max_size (snd (get_noise_optimized noise r x y z)) = v2_cache_max_size r"
  by (simp add: get_noise_optimized_def Let_def split: option.splits)

lemma get_noise_optimized_bound:
  assumes "v2_cache_ok r" and "2 \<le> v2_cache_max_size r"
    and "length (v2_noise_cache r) \<le> v2_cache_max_size r"
  shows "length (v2_noise_cache (snd (get_noise_optimized noise r x y z))) \<le> v2_cache_max_size r"
  using assms(1)
proof (cases rule: get_noise_optimized_cases[where x=x and y=y and z=z and noise=noise])
  case (hit v)
  then show ?thesis using assms by simp
next
  case miss
  have "1 \<le> v2_cache_max_size r div 2" using assms(2) by simp
  then show ?thesis using miss assms by auto
qed

lemma v2_lookups_inv:
  assumes "v2_cache_ok r" and "2 \<le> v2_cache_max_size r"
    and "length (v2_noise_cache r) \<le> v2_cache_max_size r"
  shows "v2_cache_ok (v2_lookups noise r cs)
     \<and> v2_cache_max_size (v2_lookups noise r cs) = v2_cache_max_size r
     \<and> length (v2_noise_cache (v2_lookups noise r cs)) \<le> v2_cache_max_size r"
  using assms
proof (induction cs arbitrary: r)
  case Nil
  then show ?case by simp
next
  case (Cons c cs)
  obtain x y z where c: "c = (x, y, z)" by (cases c) auto
  let ?r = "snd (get_noise_optimized noise r x y z)"
  have "v2_cache_ok ?r" "2 \<le> v2_cache_max_size ?r"
       "length (v2_noise_cache ?r) \<le> v2_cache_max_size ?r"
    using Cons.prems get_noise_optimized_ok get_noise_optimized_max get_noise_optimized_bound
    by simp_all
  from Cons.IH[OF this] show ?case by (simp add: c get_noise_optimized_max)
qed

text \<open>
  Claim C2. Starting from the empty cache of a new renderer, after every sequence of cached
  lookups the cache holds at most \<open>cache_max_size\<close> entries, and \<open>cache_max_size\<close>
  is still the constructor's value: 10000 in \<^verbatim>\<open>test4_optimized.py\<close>, 2000 in
  \<^verbatim>\<open>test4_optimized_v2.py\<close>. The sequence is arbitrary, so the bound holds after each
  lookup of a run.
\<close>

theorem cache_size_never_exceeds_max:
  "length (noise_cache (lookups noise (NoiseRenderer_init w h) cs))
     \<le> cache_max_size (lookups noise (NoiseRenderer_init w h) cs)
   \<and> cache_max_size (lookups noise (NoiseRenderer_init w h) cs) = 10000
   \<and> length (v2_noise_cache (v2_lookups noise (OptimizedNoiseRenderer_init w h) cs))
     \<le> v2_cache_max_size (v2_lookups noise (OptimizedNoiseRenderer_init w h) cs)
   \<and> v2_cache_max_size (v2_lookups noise (OptimizedNoiseRenderer_init w h) cs) = 2000"
proof -
  have a: "5 \<le> cache_max_size (NoiseRenderer_init w h)"
      "length (noise_cache (NoiseRenderer_init w h)) \<le> cache_max_size (NoiseRenderer_init w h)"
      "cache_max_size (NoiseRenderer_init w h) = 10000"
    by (simp_all add: NoiseRenderer_init_def)
  have b: "2 \<le> v2_cache_max_size (OptimizedNoiseRenderer_init w h)"
      "length (v2_noise_cache (OptimizedNoiseRenderer_init w h))
         \<le> v2_cache_max_size (OptimizedNoiseRenderer_init w h)"
      "v2_cache_max_size (OptimizedNoiseRenderer_init w h) = 2000"
    by (simp_all add: OptimizedNoiseRenderer_init_def)
  show ?thesis
    using lookups_inv[OF cache_ok_init a(1,2), where noise=noise and cs=cs]
      v2_lookups_inv[OF v2_cache_ok_init b(1,2), where noise=noise and cs=cs] a(3) b(3)
    by simp
qed

text \<open>
  The bound rests on a maximum of at least 5 (2 in \<^verbatim>\<open>test4_optimized_v2.py\<close>), which
  the constructors' 10000 and 2000 are. With \<open>cache_max_size = 4\<close> the batch
  \<open>4 // 5\<close> is empty and a full cache still grows.
\<close>

lemma small_cache_grows:
  "length (noise_cache (snd (get_noise_cached (\<lambda>x y z. x)
       \<lparr>width = 1, height = 1,
        noise_cache = [((0, 0, 0), 0), ((1, 0, 0), 1), ((2, 0, 0), 2), ((3, 0, 0), 3)],
        cache_max_size = 4, frame_buffer = [], noise_calls = []\<rparr> 5 0 0))) = 5"
  by (simp add: get_noise_cached_def py_round_def round_half_even_def dict_set_def
      dict_del_all_def Let_def)















text \<open>
  Claim C4. When the cache holds \<open>cache_max_size\<close> entries (or more) and a lookup misses,
  the new cache is the old one without its first \<open>cache_max_size div 5\<close> entries
  (\<open>div 2\<close> in \<^verbatim>\<open>test4_optimized_v2.py\<close>), followed by the new entry. The cache
  lists its entries oldest first, so exactly that many of the oldest entries are removed,
  every other entry is kept in its order, and the new key is stored last.
\<close>

theorem full_cache_miss_evicts_oldest_batch:
  assumes "cache_ok r"
    and "cache_max_size r \<le> length (noise_cache r)"
    and "map_of (noise_cache r) (cache_key (x, y, z)) = None"
    and "v2_cache_ok q"
    and "v2_cache_max_size q \<le> length (v2_noise_cache q)"
    and "map_of (v2_noise_cache q) (v2_cache_key (u, v, w)) = None"
  shows "noise_cache (snd (get_noise_cached noise r x y z))
           = drop (cache_max_size r div 5) (noise_cache r) @ [(cache_key (x, y, z), noise x y z)]
       \<and> noise_cache r = take (cache_max_size r div 5) (noise_cache r)
                          @ drop (cache_max_size r div 5) (noise_cache r)
       \<and> length (take (cache_max_size r div 5) (noise_cache r)) = cache_max_size r div 5
       \<and> v2_noise_cache (snd (get_noise_optimized noise q u v w))
           = drop (v2_cache_max_size q div 2) (v2_noise_cache q) @ [(v2_cache_key (u, v, w), noise u v w)]
       \<and> v2_noise_cache q = take (v2_cache_max_size q div 2) (v2_noise_cache q)
                          @ drop (v2_cache_max_size q div 2) (v2_noise_cache q)
       \<and> length (take (v2_cache_max_size q div 2) (v2_noise_cache q)) = v2_cache_max_size q div 2"
proof -
  have "cache_max_size r div 5 \<le> length (noise_cache r)"
    using assms(2) by (meson div_le_dividend le_trans)
  moreover have "v2_cache_max_size q div 2 \<le> length (v2_noise_cache q)"
    using assms(5) by (meson div_le_dividend le_trans)
  ultimately show ?thesis
    using get_noise_cached_miss[of r x y z noise] get_noise_optimized_miss[of q u v w noise] assms
    by (simp add: cache_ok_def v2_cache_ok_def)
qed

theorem full_cache_miss_evicts_oldest_batch_witness:
  "noise_cache (snd (get_noise_cached (\<lambda>x y z. x)
       \<lparr>width = 1, height = 1,
        noise_cache = [((0, 0, 0), 0), ((1, 0, 0), 1), ((2, 0, 0), 2), ((3, 0, 0), 3), ((4, 0, 0), 4)],
        cache_max_size = 5, frame_buffer = [], noise_calls = []\<rparr> 5 0 0))
     = [((1, 0, 0), 1), ((2, 0, 0), 2), ((3, 0, 0), 3), ((4, 0, 0), 4), ((5, 0, 0), 5)]
   \<and> v2_noise_cache (snd (get_noise_optimized (\<lambda>x y z. x)
       \<lparr>v2_width = 1, v2_height = 1, enable_cache = True,
        v2_noise_cache = [((0, 0, 0), 0), ((1, 0, 0), 1), ((2, 0, 0), 2), ((3, 0, 0), 3)],
        v2_cache_max_size = 4, cache_hits = 0, cache_misses = 4, output_parts = [],
        v2_noise_calls = []\<rparr> 5 0 0))
     = [((2, 0, 0), 2), ((3, 0, 0), 3), ((5, 0, 0), 5)]"
  using full_cache_miss_evicts_oldest_batch[of
       "\<lparr>width = 1, height = 1,
        noise_cache = [((0, 0, 0), 0), ((1, 0, 0), 1), ((2, 0, 0), 2), ((3, 0, 0), 3), ((4, 0, 0), 4)],
        cache_max_size = 5, frame_buffer = [], noise_calls = []\<rparr>" 5 0 0
       "\<lparr>v2_width = 1, v2_height = 1, enable_cache = True,
        v2_noise_cache = [((0, 0, 0), 0), ((1, 0, 0), 1), ((2, 0, 0), 2), ((3, 0, 0), 3)],
        v2_cache_max_size = 4, cache_hits = 0, cache_misses = 4, output_parts = [],
        v2_noise_calls = []\<rparr>" 5 0 0 "\<lambda>x y z. x"]
  by (simp add: cache_ok_def v2_cache_ok_def cache_key_def v2_cache_key_def py_round_def
      round_half_even_def)

text \<open>
  The order of the cache is the order of insertion: after any lookups on a new renderer the
  cache holds the results of the most recent calls of the noise source, in the order of the
  calls.
\<close>

lemma get_noise_cached_call_order:
  assumes "cache_ok r"
    and "noise_cache r = drop k (map (call_entry noise) (noise_calls r))"
    and "k \<le> length (noise_calls r)"
    and "length (noise_cache r) \<le> cache_max_size r"
  shows "\<exists>k' \<le> length (noise_calls (snd (get_noise_cached noise r x y z))).
           noise_cache (snd (get_noise_cached noise r x y z))
           = drop k' (map (call_entry noise) (noise_calls (snd (get_noise_cached noise r x y z))))"
  using assms(1)
proof (cases rule: get_noise_cached_cases[where x=x and y=y and z=z and noise=noise])
  case (hit v)
  then show ?thesis using assms(2,3) by auto
next
  case miss
  let ?n = "if cache_max_size r \<le> length (noise_cache r) then cache_max_size r div 5 else 0"
  have n: "?n \<le> length (noise_cache r)" using assms(4) by auto
  have c: "noise_cache (snd (get_noise_cached noise r x y z))
            = drop ?n (noise_cache r) @ [call_entry noise (x, y, z)]"
    using miss by (simp add: call_entry_def)
  have d: "drop ?n (noise_cache r) = drop (?n + k) (map (call_entry noise) (noise_calls r))"
    by (subst assms(2)) simp
  have "length (noise_cache r) = length (noise_calls r) - k"
    by (subst assms(2)) simp
  then have le: "?n + k \<le> length (noise_calls r)"
    using n assms(3) by linarith
  then have "noise_cache (snd (get_noise_cached noise r x y z))
     = drop (?n + k) (map (call_entry noise) (noise_calls r @ [(x, y, z)]))"
    using c d by simp
  moreover have "noise_calls (snd (get_noise_cached noise r x y z)) = noise_calls r @ [(x, y, z)]"
    using miss by simp
  ultimately show ?thesis using le
    by (intro exI[of _ "?n + k"]) simp
qed

lemma cache_in_call_order:
  "\<exists>k. noise_cache (lookups noise (NoiseRenderer_init w h) cs)
         = drop k (map (call_entry noise) (noise_calls (lookups noise (NoiseRenderer_init w h) cs)))"
proof -
  have "cache_ok r \<Longrightarrow> 5 \<le> cache_max_size r \<Longrightarrow> length (noise_cache r) \<le> cache_max_size r \<Longrightarrow>
        \<exists>k \<le> length (noise_calls r). noise_cache r = drop k (map (call_entry noise) (noise_calls r)) \<Longrightarrow>
        \<exists>k. noise_cache (lookups noise r cs) = drop k (map (call_entry noise) (noise_calls (lookups noise r cs)))"
    for r
  proof (induction cs arbitrary: r)
    case Nil
    then show ?case by auto
  next
    case (Cons c cs)
    obtain x y z where c: "c = (x, y, z)" by (cases c) auto
    let ?r = "snd (get_noise_cached noise r x y z)"
    have "cache_ok ?r" "5 \<le> cache_max_size ?r" "length (noise_cache ?r) \<le> cache_max_size ?r"
      using Cons.prems get_noise_cached_ok get_noise_cached_max get_noise_cached_bound by simp_all
    moreover have "\<exists>k \<le> length (noise_calls ?r).
        noise_cache ?r = drop k (map (call_entry noise) (noise_calls ?r))"
      using Cons.prems get_noise_cached_call_order by blast
    ultimately show ?case using Cons.IH[of ?r] by (simp add: c)
  qed
  moreover have "\<exists>k \<le> length (noise_calls (NoiseRenderer_init w h)). noise_cache (NoiseRenderer_init w h)
      = drop k (map (call_entry noise) (noise_calls (NoiseRenderer_init w h)))"
    by (simp add: NoiseRenderer_init_def)
  ultimately show ?thesis
    using cache_ok_init[of w h] by (simp add: NoiseRenderer_init_def)
qed

section \<open>mxplusb and the velocities\<close>

lemma mxplusb_equal_raises: "mxplusb exp1 act exp2 act = Inl ZeroDivisionError"
  by (simp add: mxplusb_def)

lemma mxplusb_centre:
  assumes "w \<noteq> 0"
  shows "mxplusb (- 1) 0 1 w = Inr (2 / w, - 1)"
  using assms by (simp add: mxplusb_def)

text \<open>
  In exact arithmetic the velocity at the centre is 0 for every positive size: with
  \<open>mousex = width / 2\<close> and \<open>mousey = height / 2\<close>, the velocity lines of
  \<^verbatim>\<open>test4.py\<close> and \<^verbatim>\<open>test4_optimized.py\<close> raise nothing and set both velocities
  to 0, and so do the simplified lines of \<^verbatim>\<open>test4_optimized_v2.py\<close>. What the rounding
  of doubles makes of this is the subject of a later section.
\<close>

lemma exact_velocity_zero_at_centre:
  assumes "0 < g_width g" and "0 < g_height g"
    and "real_of_int (g_mousex g) = real_of_int (g_width g) / 2"
    and "real_of_int (g_mousey g) = real_of_int (g_height g) / 2"
  shows "(\<exists>g'. update_velocity g = Inr g' \<and> g_xvelocity g' = 0 \<and> g_yvelocity g' = 0)
       \<and> g_xvelocity (update_velocity_v2 g) = 0 \<and> g_yvelocity (update_velocity_v2 g) = 0"
proof -
  have w: "real_of_int (g_width g) \<noteq> 0" and h: "real_of_int (g_height g) \<noteq> 0"
    using assms(1,2) by simp_all
  show ?thesis
    using assms(3,4) w h
    by (simp add: update_velocity_def update_velocity_v2_def mxplusb_centre Let_def)
qed

section \<open>The optimized loops: decoding never raises, the extrema never move\<close>

lemma for_each_optimized_total:
  assumes "\<And>s x. \<exists>s'. body s x = Inr s'"
  shows "\<exists>s'. for_each body s xs = Inr s'"
proof (induction xs arbitrary: s)
  case Nil
  then show ?case by simp
next
  case (Cons x xs)
  obtain s1 where "body s x = Inr s1" using assms by blast
  then show ?case using Cons.IH[of s1] by simp
qed

lemma for_each_preserves:
  assumes "\<And>s x s'. body s x = Inr s' \<Longrightarrow> P s \<Longrightarrow> P s'"
    and "for_each body s xs = Inr s'" and "P s"
  shows "P s'"
  using assms(2,3)
proof (induction xs arbitrary: s)
  case Nil
  then show ?case by simp
next
  case (Cons x xs)
  then show ?case using assms(1) by (auto split: sum.splits)
qed

lemma mouse_record_never_other:
  "mouse_record g metainfo = Inl (e, g') \<Longrightarrow> e = ValueError"
  by (auto simp: mouse_record_def Let_def split: if_splits option.splits)

lemma except_pass_mouse_record: "\<exists>g'. except_pass (mouse_record g metainfo) = Inr g'"
proof (cases "mouse_record g metainfo")
  case (Inl a)
  then obtain e g' where "mouse_record g metainfo = Inl (e, g')" by (cases a) auto
  then show ?thesis using mouse_record_never_other[of g metainfo e g']
    by (simp add: except_pass_def)
next
  case (Inr g')
  then show ?thesis by (simp add: except_pass_def)
qed

lemma process_entry_optimized_total: "\<exists>g'. process_entry_optimized g entry = Inr g'"
  using except_pass_mouse_record by (simp add: process_entry_optimized_def Let_def)

lemma process_part_v2_total: "\<exists>g'. process_part_v2 g part = Inr g'"
  using except_pass_mouse_record by (simp add: process_part_v2_def Let_def)

lemma parse_instream_optimized_total: "\<exists>g'. parse_instream_optimized g instream = Inr g'"
  using for_each_optimized_total[of process_entry_optimized, OF process_entry_optimized_total]
  by (simp add: parse_instream_optimized_def)

lemma parse_instream_v2_total: "\<exists>g'. parse_instream_v2 g instream = Inr g'"
  using for_each_optimized_total[of process_part_v2, OF process_part_v2_total]
  by (simp add: parse_instream_v2_def)


lemma mouse_record_extrema:
  "mouse_record g metainfo = Inr g' \<or> mouse_record g metainfo = Inl (e, g') \<Longrightarrow> same_extrema g g'"
  by (auto simp: mouse_record_def same_extrema_def Let_def split: if_splits option.splits)

lemma except_pass_extrema:
  assumes "except_pass (mouse_record g metainfo) = Inr g'"
  shows "same_extrema g g'"
proof (cases "mouse_record g metainfo")
  case (Inl a)
  then obtain e g1 where m: "mouse_record g metainfo = Inl (e, g1)" by (cases a) auto
  then have "g' = g1" using assms by (simp add: except_pass_def split: if_splits)
  then show ?thesis using m mouse_record_extrema[of g metainfo g' e] by simp
next
  case (Inr g1)
  then have "g' = g1" using assms by (simp add: except_pass_def)
  then show ?thesis using Inr mouse_record_extrema[of g metainfo g'] by simp
qed

lemma process_entry_optimized_extrema:
  "process_entry_optimized g entry = Inr g' \<Longrightarrow> same_extrema g g'"
  using except_pass_extrema[of g "split_on CHR '';'' entry" g']
  by (auto simp: process_entry_optimized_def Let_def same_extrema_def split: if_splits)

lemma process_part_v2_extrema:
  "process_part_v2 g part = Inr g' \<Longrightarrow> same_extrema g g'"
  using except_pass_extrema[of g "split_on CHR '';'' part" g']
  by (auto simp: process_part_v2_def Let_def same_extrema_def split: if_splits)

lemma same_extrema_trans: "same_extrema g g1 \<Longrightarrow> same_extrema g1 g2 \<Longrightarrow> same_extrema g g2"
  by (simp add: same_extrema_def)

lemma parse_instream_optimized_extrema:
  assumes "parse_instream_optimized g instream = Inr g'"
  shows "same_extrema g g'"
proof -
  have "for_each process_entry_optimized g es = Inr g' \<Longrightarrow> same_extrema g g'" for es
    using for_each_preserves[of process_entry_optimized "same_extrema g" g es g']
      process_entry_optimized_extrema same_extrema_trans
    by (metis same_extrema_def)
  then show ?thesis using assms
    by (auto simp: parse_instream_optimized_def same_extrema_def split: if_splits)
qed

lemma parse_instream_v2_extrema:
  assumes "parse_instream_v2 g instream = Inr g'"
  shows "same_extrema g g'"
proof -
  have "for_each process_part_v2 g es = Inr g' \<Longrightarrow> same_extrema g g'" for es
    using for_each_preserves[of process_part_v2 "same_extrema g" g es g']
      process_part_v2_extrema same_extrema_trans
    by (metis same_extrema_def)
  then show ?thesis using assms
    by (auto simp: parse_instream_v2_def same_extrema_def split: if_splits)
qed

lemma update_velocity_extrema:
  "update_velocity g = Inr g' \<or> update_velocity g = Inl (e, g') \<Longrightarrow>
   g_minfound g' = g_minfound g \<and> g_maxfound g' = g_maxfound g \<and> g_framecount g' = g_framecount g"
  by (auto simp: update_velocity_def Let_def split: sum.splits prod.splits)

lemma update_velocity_error: "update_velocity g = Inl (e, g') \<Longrightarrow> e = ZeroDivisionError"
  by (auto simp: update_velocity_def mxplusb_def Let_def split: sum.splits prod.splits if_splits)

lemma update_velocity_v2_extrema:
  "g_minfound (update_velocity_v2 g) = g_minfound g \<and> g_maxfound (update_velocity_v2 g) = g_maxfound g
   \<and> g_framecount (update_velocity_v2 g) = g_framecount g"
  by (simp add: update_velocity_v2_def Let_def)

lemma recalibrate_flat:
  "g_minfound g = g_maxfound g \<Longrightarrow> recalibrate g = Inl (ZeroDivisionError, g)"
  by (simp add: recalibrate_def mxplusb_def)

lemma loop_body_optimized_flat:
  assumes "flat g"
  shows "case loop_body_optimized noise inp (g, r) of
           Continue (g', r') \<Rightarrow> flat g' \<and> g_framecount g' = g_framecount g + 1
                                 \<and> g_framecount g' mod 10 \<noteq> 0
         | Break (g', r') \<Rightarrow> in_event inp = 113
         | Raised e (g', r') \<Rightarrow> e = ZeroDivisionError \<and> flat g'"
proof -
  define g1 where "g1 = g\<lparr>g_framecount := g_framecount g + 1\<rparr>"
  define s2 where "s2 =
            (if g_framecount g1 mod 30 = 0
             then (let g' = g1\<lparr>g_height := fst (in_maxyx inp) - 1, g_width := snd (in_maxyx inp)\<rparr>
                   in if int (width r) \<noteq> g_width g' \<or> int (height r) \<noteq> g_height g'
                      then (g', NoiseRenderer_init (nat (g_width g')) (nat (g_height g')))
                      else (g', r))
             else (g1, r))"
  obtain g2 r2 where s2': "s2 = (g2, r2)" by (cases s2)
  have g2: "flat g2" "g_framecount g2 = g_framecount g + 1"
    using assms s2' by (auto simp: s2_def g1_def flat_def Let_def split: if_splits)
  obtain g3 where p: "parse_instream_optimized g2 (in_instream inp) = Inr g3"
    using parse_instream_optimized_total by blast
  have g3: "flat g3" "g_framecount g3 = g_framecount g + 1"
    using parse_instream_optimized_extrema[OF p] g2 by (simp_all add: same_extrema_def flat_def)
  have unfold: "loop_body_optimized noise inp (g, r) =
     (if in_event inp = 113 then Break (g3, r2)
      else case update_velocity g3 of
             Inl (e, g4) \<Rightarrow> Raised e (g4, r2)
           | Inr g4 \<Rightarrow>
               (let (frame_lines, renderer3) =
                      render_frame_optimized noise r2 (g_xoffset g4) (g_yoffset g4)
                        (g_zoffset g4) (g_mx g4) (g_b g4) (g_framecount g4)
                in if g_framecount g4 mod 10 = 0
                   then (case recalibrate g4 of
                           Inl (e, g5) \<Rightarrow> Raised e (g5, renderer3)
                         | Inr g5 \<Rightarrow> Continue (g5, renderer3))
                   else Continue (g4, renderer3)))"
    using p s2' unfolding loop_body_optimized_def s2_def g1_def
    by (simp add: Let_def)
  show ?thesis
  proof (cases "in_event inp = 113")
    case True
    then show ?thesis by (simp add: unfold)
  next
    case False
    show ?thesis
    proof (cases "update_velocity g3")
      case (Inl a)
      obtain e g4 where a: "a = (e, g4)" by (cases a)
      have "e = ZeroDivisionError" using Inl a update_velocity_error by simp
      moreover have "flat g4"
        using update_velocity_extrema[of g3 g4 e] Inl a g3 by (simp add: flat_def)
      ultimately show ?thesis using False Inl a by (simp add: unfold)
    next
      case (Inr g4)
      have g4: "flat g4" "g_framecount g4 = g_framecount g + 1"
        using update_velocity_extrema[of g3 g4] Inr g3 by (simp_all add: flat_def)
      have rc: "recalibrate g4 = Inl (ZeroDivisionError, g4)"
        using g4(1) by (simp add: recalibrate_flat flat_def)
      show ?thesis using False Inr g4 rc
        by (simp add: unfold Let_def split: prod.splits)
    qed
  qed
qed

lemma loop_body_v2_flat:
  assumes "flat g"
  shows "case loop_body_v2 noise inp (g, r) of
           Continue (g', r') \<Rightarrow> flat g' \<and> g_framecount g' = g_framecount g + 1
                                 \<and> g_framecount g' mod 10 \<noteq> 0
         | Break (g', r') \<Rightarrow> in_event inp = 113
         | Raised e (g', r') \<Rightarrow> e = ZeroDivisionError \<and> flat g'"
proof -
  define g1 where "g1 = g\<lparr>g_framecount := g_framecount g + 1\<rparr>"
  define s2 where "s2 =
            (if g_framecount g1 - g_last_size_check g1 > 30
             then (let new_height = fst (in_maxyx inp) - 1;
                       new_width = snd (in_maxyx inp);
                       (g', renderer') =
                          (if new_width \<noteq> g_width g1 \<or> new_height \<noteq> g_height g1
                           then (g1\<lparr>g_width := new_width, g_height := new_height\<rparr>,
                                 OptimizedNoiseRenderer_init (nat new_width) (nat new_height))
                           else (g1, r))
                   in (g'\<lparr>g_last_size_check := g_framecount g'\<rparr>, renderer'))
             else (g1, r))"
  obtain g2 r2 where s2': "s2 = (g2, r2)" by (cases s2)
  have g2: "flat g2" "g_framecount g2 = g_framecount g + 1"
    using assms s2' by (auto simp: s2_def g1_def flat_def Let_def split: if_splits)
  obtain g3 where p: "parse_instream_v2 g2 (in_instream inp) = Inr g3"
    using parse_instream_v2_total by blast
  have g3: "flat g3" "g_framecount g3 = g_framecount g + 1"
    using parse_instream_v2_extrema[OF p] g2 by (simp_all add: same_extrema_def flat_def)
  define g4 where "g4 = update_velocity_v2 g3"
  have g4: "flat g4" "g_framecount g4 = g_framecount g + 1"
    using update_velocity_v2_extrema[of g3] g3 by (simp_all add: flat_def g4_def)
  have rc: "recalibrate g4 = Inl (ZeroDivisionError, g4)"
    using g4(1) by (simp add: recalibrate_flat flat_def)
  have "loop_body_v2 noise inp (g, r) =
     (if in_event inp = 113 then Break (g3, r2)
      else (let (frame_lines, renderer3) =
                      render_frame_fast noise r2 (g_xoffset g4) (g_yoffset g4)
                        (g_zoffset g4) (g_mx g4) (g_b g4) (g_framecount g4)
            in if g_framecount g4 mod 10 = 0
               then (case recalibrate g4 of
                       Inl (e, g5) \<Rightarrow> Raised e (g5, renderer3)
                     | Inr g5 \<Rightarrow> Continue (g5, renderer3))
               else Continue (g4, renderer3)))"
    using p s2' unfolding loop_body_v2_def g4_def s2_def g1_def
    by (simp add: Let_def)
  then show ?thesis using g4 rc
    by (simp add: Let_def split: prod.splits)
qed

lemma succ_mod_ten: "((a::int) + 1) mod 10 \<noteq> 0 \<Longrightarrow> (a + 1) mod 10 = a mod 10 + 1"
proof -
  assume h: "(a + 1) mod 10 \<noteq> 0"
  have "a mod 10 < 10" "0 \<le> a mod 10" by simp_all
  have "(a + 1) mod 10 = (a mod 10 + 1) mod 10" by (simp add: mod_add_left_eq)
  moreover have "a mod 10 + 1 \<noteq> 10" using h calculation by auto
  ultimately show ?thesis using \<open>a mod 10 < 10\<close> \<open>0 \<le> a mod 10\<close> by (simp add: mod_pos_pos_trivial)
qed

lemma run_optimized_flat:
  assumes "flat g" and "run (loop_body_optimized noise) (g, r) inputs = Continue (g', r')"
  shows "flat g' \<and> g_framecount g' = g_framecount g + int (length inputs)
         \<and> g_framecount g mod 10 + int (length inputs) < 10"
  using assms
proof (induction inputs arbitrary: g r)
  case Nil
  then show ?case by simp
next
  case (Cons inp inputs)
  from Cons.prems(2) obtain g1 r1 where
    b: "loop_body_optimized noise inp (g, r) = Continue (g1, r1)"
    and rest: "run (loop_body_optimized noise) (g1, r1) inputs = Continue (g', r')"
    by (auto split: outcome.splits)
  from loop_body_optimized_flat[OF Cons.prems(1), where noise=noise and inp=inp and r=r] b
  have "flat g1 \<and> g_framecount g1 = g_framecount g + 1 \<and> g_framecount g1 mod 10 \<noteq> 0"
    by auto
  note c = this
  have g1: "flat g1" "g_framecount g1 = g_framecount g + 1"
    using c by blast+
  have g1m: "g_framecount g1 mod 10 \<noteq> 0"
    by (rule conjunct2[OF conjunct2[OF c]])
  from Cons.IH[OF g1(1) rest]
  have ih: "flat g'" "g_framecount g' = g_framecount g1 + int (length inputs)"
    "g_framecount g1 mod 10 + int (length inputs) < 10" by simp_all
  have "g_framecount g1 mod 10 = g_framecount g mod 10 + 1"
    using g1(2) g1m succ_mod_ten[of "g_framecount g"] by simp
  then show ?case using ih g1(2) by simp
qed

lemma run_v2_flat:
  assumes "flat g" and "run (loop_body_v2 noise) (g, r) inputs = Continue (g', r')"
  shows "flat g' \<and> g_framecount g' = g_framecount g + int (length inputs)
         \<and> g_framecount g mod 10 + int (length inputs) < 10"
  using assms
proof (induction inputs arbitrary: g r)
  case Nil
  then show ?case by simp
next
  case (Cons inp inputs)
  from Cons.prems(2) obtain g1 r1 where
    b: "loop_body_v2 noise inp (g, r) = Continue (g1, r1)"
    and rest: "run (loop_body_v2 noise) (g1, r1) inputs = Continue (g', r')"
    by (auto split: outcome.splits)
  from loop_body_v2_flat[OF Cons.prems(1), where noise=noise and inp=inp and r=r] b
  have "flat g1 \<and> g_framecount g1 = g_framecount g + 1 \<and> g_framecount g1 mod 10 \<noteq> 0"
    by auto
  note c = this
  have g1: "flat g1" "g_framecount g1 = g_framecount g + 1"
    using c by blast+
  have g1m: "g_framecount g1 mod 10 \<noteq> 0"
    by (rule conjunct2[OF conjunct2[OF c]])
  from Cons.IH[OF g1(1) rest]
  have ih: "flat g'" "g_framecount g' = g_framecount g1 + int (length inputs)"
    "g_framecount g1 mod 10 + int (length inputs) < 10" by simp_all
  have "g_framecount g1 mod 10 = g_framecount g mod 10 + 1"
    using g1(2) g1m succ_mod_ten[of "g_framecount g"] by simp
  then show ?case using ih g1(2) by simp
qed

lemma tenth_frame_optimized:
  assumes "flat g" and "(g_framecount g + 1) mod 10 = 0" and "in_event inp \<noteq> 113"
  shows "\<exists>s. loop_body_optimized noise inp (g, r) = Raised ZeroDivisionError s"
  using loop_body_optimized_flat[OF assms(1), where noise=noise and inp=inp and r=r] assms(2,3)
  by (cases "loop_body_optimized noise inp (g, r)") auto

lemma tenth_frame_v2:
  assumes "flat g" and "(g_framecount g + 1) mod 10 = 0" and "in_event inp \<noteq> 113"
  shows "\<exists>s. loop_body_v2 noise inp (g, r) = Raised ZeroDivisionError s"
  using loop_body_v2_flat[OF assms(1), where noise=noise and inp=inp and r=r] assms(2,3)
  by (cases "loop_body_v2 noise inp (g, r)") auto

text \<open>
  Claim C9. \<open>mxplusb\<close> raises \<open>ZeroDivisionError\<close> whenever its two \<open>act\<close> arguments are
  equal. In \<^verbatim>\<open>test4_optimized.py\<close> and \<^verbatim>\<open>test4_optimized_v2.py\<close> nothing writes
  \<open>minfound\<close> and \<open>maxfound\<close>: after any number of passes of the loop that reach the bottom
  of the body both are still 0, the recalibration would raise, and fewer than ten passes
  have been made. The pass that makes \<open>framecount\<close> a multiple of 10 raises
  \<open>ZeroDivisionError\<close> unless the key \<open>q\<close> leaves the loop first.
\<close>

theorem recalibration_divides_by_zero:
  "mxplusb exp1 act exp2 act = Inl ZeroDivisionError
   \<and> (run (loop_body_optimized noise) (start_optimized rows cols) inputs = Continue (g, r) \<longrightarrow>
        g_minfound g = 0 \<and> g_maxfound g = 0 \<and> recalibrate g = Inl (ZeroDivisionError, g)
        \<and> length inputs < 10)
   \<and> (g_minfound g9 = 0 \<and> g_maxfound g9 = 0 \<and> (g_framecount g9 + 1) mod 10 = 0
        \<and> in_event inp \<noteq> 113 \<longrightarrow>
        (\<exists>s. loop_body_optimized noise inp (g9, r9) = Raised ZeroDivisionError s))
   \<and> (run (loop_body_v2 noise) (start_v2 rows cols) inputs = Continue (g, q) \<longrightarrow>
        g_minfound g = 0 \<and> g_maxfound g = 0 \<and> recalibrate g = Inl (ZeroDivisionError, g)
        \<and> length inputs < 10)
   \<and> (g_minfound g9 = 0 \<and> g_maxfound g9 = 0 \<and> (g_framecount g9 + 1) mod 10 = 0
        \<and> in_event inp \<noteq> 113 \<longrightarrow>
        (\<exists>s. loop_body_v2 noise inp (g9, q9) = Raised ZeroDivisionError s))"
proof -
  have f0: "flat (globals_init rows cols)" "g_framecount (globals_init rows cols) = 0"
    by (simp_all add: flat_def globals_init_def)
  have a: "run (loop_body_optimized noise) (start_optimized rows cols) inputs = Continue (g, r) \<longrightarrow>
        g_minfound g = 0 \<and> g_maxfound g = 0 \<and> recalibrate g = Inl (ZeroDivisionError, g)
        \<and> length inputs < 10"
  proof
    assume "run (loop_body_optimized noise) (start_optimized rows cols) inputs = Continue (g, r)"
    then have "run (loop_body_optimized noise)
                 (globals_init rows cols, NoiseRenderer_init (nat cols) (nat (rows - 1))) inputs
               = Continue (g, r)"
      by (simp only: start_optimized_def)
    from run_optimized_flat[OF f0(1) this] f0(2)
    have "flat g" and "int (length inputs) < 10" by simp_all
    then show "g_minfound g = 0 \<and> g_maxfound g = 0 \<and> recalibrate g = Inl (ZeroDivisionError, g)
        \<and> length inputs < 10"
      by (simp add: flat_def recalibrate_flat)
  qed
  have b: "run (loop_body_v2 noise) (start_v2 rows cols) inputs = Continue (g, q) \<longrightarrow>
        g_minfound g = 0 \<and> g_maxfound g = 0 \<and> recalibrate g = Inl (ZeroDivisionError, g)
        \<and> length inputs < 10"
  proof
    assume "run (loop_body_v2 noise) (start_v2 rows cols) inputs = Continue (g, q)"
    then have "run (loop_body_v2 noise)
                 (globals_init rows cols, OptimizedNoiseRenderer_init (nat cols) (nat (rows - 1))) inputs
               = Continue (g, q)"
      by (simp only: start_v2_def)
    from run_v2_flat[OF f0(1) this] f0(2)
    have "flat g" and "int (length inputs) < 10" by simp_all
    then show "g_minfound g = 0 \<and> g_maxfound g = 0 \<and> recalibrate g = Inl (ZeroDivisionError, g)
        \<and> length inputs < 10"
      by (simp add: flat_def recalibrate_flat)
  qed
  have c: "g_minfound g9 = 0 \<and> g_maxfound g9 = 0 \<and> (g_framecount g9 + 1) mod 10 = 0
        \<and> in_event inp \<noteq> 113 \<longrightarrow>
        (\<exists>s. loop_body_optimized noise inp (g9, r9) = Raised ZeroDivisionError s)"
  proof
    assume h: "g_minfound g9 = 0 \<and> g_maxfound g9 = 0 \<and> (g_framecount g9 + 1) mod 10 = 0
        \<and> in_event inp \<noteq> 113"
    then have f: "flat g9" by (simp add: flat_def)
    show "\<exists>s. loop_body_optimized noise inp (g9, r9) = Raised ZeroDivisionError s"
      by (rule tenth_frame_optimized[OF f conjunct1[OF conjunct2[OF conjunct2[OF h]]]
            conjunct2[OF conjunct2[OF conjunct2[OF h]]]])
  qed
  have d: "g_minfound g9 = 0 \<and> g_maxfound g9 = 0 \<and> (g_framecount g9 + 1) mod 10 = 0
        \<and> in_event inp \<noteq> 113 \<longrightarrow>
        (\<exists>s. loop_body_v2 noise inp (g9, q9) = Raised ZeroDivisionError s)"
  proof
    assume h: "g_minfound g9 = 0 \<and> g_maxfound g9 = 0 \<and> (g_framecount g9 + 1) mod 10 = 0
        \<and> in_event inp \<noteq> 113"
    then have f: "flat g9" by (simp add: flat_def)
    show "\<exists>s. loop_body_v2 noise inp (g9, q9) = Raised ZeroDivisionError s"
      by (rule tenth_frame_v2[OF f conjunct1[OF conjunct2[OF conjunct2[OF h]]]
            conjunct2[OF conjunct2[OF conjunct2[OF h]]]])
  qed
  show ?thesis
    by (rule conjI[OF mxplusb_equal_raises conjI[OF a conjI[OF c conjI[OF b d]]]])
qed

theorem recalibration_divides_by_zero_witness:
  "recalibrate (globals_init 24 80) = Inl (ZeroDivisionError, globals_init 24 80)
   \<and> (\<exists>s. loop_body_optimized (\<lambda>x y z. x)
             \<lparr>in_event = - 1, in_maxyx = (24, 80), in_instream = []\<rparr>
             ((globals_init 24 80)\<lparr>g_framecount := 9\<rparr>, NoiseRenderer_init 80 23)
           = Raised ZeroDivisionError s)
   \<and> (\<exists>s. loop_body_v2 (\<lambda>x y z. x)
             \<lparr>in_event = - 1, in_maxyx = (24, 80), in_instream = []\<rparr>
             ((globals_init 24 80)\<lparr>g_framecount := 9\<rparr>, OptimizedNoiseRenderer_init 80 23)
           = Raised ZeroDivisionError s)"
proof -
  let ?g9 = "(globals_init 24 80)\<lparr>g_framecount := 9\<rparr>"
  let ?inp = "\<lparr>in_event = - 1, in_maxyx = (24, 80), in_instream = []\<rparr>"
  have h: "g_minfound ?g9 = 0 \<and> g_maxfound ?g9 = 0 \<and> (g_framecount ?g9 + 1) mod 10 = 0
        \<and> in_event ?inp \<noteq> 113"
    by (simp add: globals_init_def)
  have r0: "run (loop_body_optimized (\<lambda>x y z. x)) (start_optimized 24 80) []
              = Continue (globals_init 24 80, NoiseRenderer_init 80 23)"
    by (simp add: start_optimized_def)
  note t = recalibration_divides_by_zero[where ?exp1.0=0 and act=0 and ?exp2.0=255
      and noise="\<lambda>x y z. x" and rows=24 and cols=80 and inputs="[]"
      and g="globals_init 24 80" and r="NoiseRenderer_init 80 23"
      and q="OptimizedNoiseRenderer_init 80 23"
      and ?g9.0="?g9" and inp="?inp"
      and ?r9.0="NoiseRenderer_init 80 23" and ?q9.0="OptimizedNoiseRenderer_init 80 23"]
  have "recalibrate (globals_init 24 80) = Inl (ZeroDivisionError, globals_init 24 80)"
    by (rule conjunct1[OF conjunct2[OF conjunct2[OF mp[OF conjunct1[OF conjunct2[OF t]] r0]]]])
  moreover have "\<exists>s. loop_body_optimized (\<lambda>x y z. x) ?inp (?g9, NoiseRenderer_init 80 23)
           = Raised ZeroDivisionError s"
    by (rule mp[OF conjunct1[OF conjunct2[OF conjunct2[OF t]]] h])
  moreover have "\<exists>s. loop_body_v2 (\<lambda>x y z. x) ?inp (?g9, OptimizedNoiseRenderer_init 80 23)
           = Raised ZeroDivisionError s"
    by (rule mp[OF conjunct2[OF conjunct2[OF conjunct2[OF conjunct2[OF t]]]] h])
  ultimately show ?thesis by (intro conjI)
qed

section \<open>Half-applied moves\<close>

lemma split_on_nonempty: "split_on sep s \<noteq> []"
  by (induction s) (auto split: list.splits)

text \<open>
  Claim C10. Let a segment have the move code 35 as its first field, at least three
  fields, a second field that \<^verbatim>\<open>int\<close> accepts and a third that it rejects, as in
  \<open>35;10;xy\<close>. Then \<open>mousex\<close> becomes the new column and \<open>mousey\<close> keeps its value:
  \<^verbatim>\<open>test4_optimized.py\<close> catches the \<open>ValueError\<close> and goes on with that state, and in
  \<^verbatim>\<open>test4.py\<close> the \<open>ValueError\<close> leaves the loop with that state.
\<close>

theorem move_update_is_not_atomic:
  assumes "entry \<noteq> []"
    and "3 \<le> length (split_on CHR '';'' entry)"
    and "split_on CHR '';'' entry ! 0 = ''35''"
    and "py_int (split_on CHR '';'' entry ! 1) = Some col"
    and "py_int (split_on CHR '';'' entry ! 2) = None"
  shows "process_entry_optimized g entry = Inr (g\<lparr>g_mousex := col\<rparr>)
       \<and> process_entry_test4 g entry = Inl (ValueError, g\<lparr>g_mousex := col\<rparr>)
       \<and> g_mousey (g\<lparr>g_mousex := col\<rparr>) = g_mousey g"
  using assms
  by (simp add: process_entry_optimized_def process_entry_test4_def mouse_record_def
      except_pass_def Let_def)

lemma split_example: "split_on CHR '';'' ''35;10;xy'' = [''35'', ''10'', ''xy'']"
  by simp

lemma py_int_10: "py_int ''10'' = Some 10"
  by (simp add: py_int_def strip_def is_space_def digit_val_def)

lemma py_int_5: "py_int ''5'' = Some 5"
  by (simp add: py_int_def strip_def is_space_def digit_val_def)

lemma py_int_xy: "py_int ''xy'' = None"
  by (simp add: py_int_def strip_def is_space_def digit_val_def)

theorem move_update_is_not_atomic_witness:
  "process_entry_optimized (globals_init 24 80) ''35;10;xy''
     = Inr ((globals_init 24 80)\<lparr>g_mousex := 10\<rparr>)
   \<and> process_entry_test4 (globals_init 24 80) ''35;10;xy''
     = Inl (ValueError, (globals_init 24 80)\<lparr>g_mousex := 10\<rparr>)
   \<and> g_mousey ((globals_init 24 80)\<lparr>g_mousex := 10\<rparr>) = 0"
  using move_update_is_not_atomic[of "''35;10;xy''" 10 "globals_init 24 80"]
  by (simp add: split_example py_int_10 py_int_xy globals_init_def)

text \<open>
  The same at the level of the programs: the optimized decoder goes on to the next
  segment with the half-updated position, and the pass of \<^verbatim>\<open>test4.py\<close> ends with the
  exception.
\<close>

lemma half_move_then_wheel_optimized:
  "parse_instream_optimized (globals_init 24 80) ''35;10;xyM65;1;1M''
     = Inr ((globals_init 24 80)\<lparr>g_mousex := 10, g_zvelocity := - (1 / 100)\<rparr>)"
  by (simp add: parse_instream_optimized_def instreamelements1_def remove_char_def
      process_entry_optimized_def mouse_record_def except_pass_def py_int_10 py_int_xy
      globals_init_def)

lemma half_move_ends_test4:
  "loop_body_test4 noise \<lparr>in_event = - 1, in_maxyx = (24, 80), in_instream = ''35;10;xyM65;1;1M''\<rparr>
      (globals_init 24 80)
     = Raised ValueError ((globals_init 24 80)\<lparr>g_framecount := 1, g_mousex := 10\<rparr>)"
  by (simp add: loop_body_test4_def parse_instream_test4_def instreamelements1_def remove_char_def
      process_entry_test4_def py_int_10 py_int_xy globals_init_def)

section \<open>The decoder example\<close>

lemma decoder_example_elements:
  "instreamelements1 decoder_example = [''35;10;5'', ''64'', ''garbage'', '''']"
  by (simp add: decoder_example_def instreamelements1_def remove_char_def)

lemma process_move_optimized:
  "process_entry_optimized g ''35;10;5'' = Inr (g\<lparr>g_mousex := 10, g_mousey := 5\<rparr>)"
  by (simp add: process_entry_optimized_def mouse_record_def except_pass_def py_int_10 py_int_5)

lemma process_short_optimized:
  "length (split_on CHR '';'' entry) < 3 \<Longrightarrow> process_entry_optimized g entry = Inr g"
  by (simp add: process_entry_optimized_def Let_def)

lemma decoder_example_optimized:
  "parse_instream_optimized g decoder_example = Inr (g\<lparr>g_mousex := 10, g_mousey := 5\<rparr>)"
proof -
  have a: "process_entry_optimized g' ''64'' = Inr g'" for g'
    by (rule process_short_optimized) simp
  have b: "process_entry_optimized g' ''garbage'' = Inr g'" for g'
    by (rule process_short_optimized) simp
  have c: "process_entry_optimized g' '''' = Inr g'" for g'
    by (simp add: process_entry_optimized_def)
  have "decoder_example \<noteq> []" by (simp add: decoder_example_def)
  then show ?thesis
    by (simp add: parse_instream_optimized_def decoder_example_elements process_move_optimized a b c)
qed

lemma decoder_example_test4:
  "parse_instream_test4 g decoder_example
     = Inr (g\<lparr>g_mousex := 10, g_mousey := 5, g_zvelocity := g_zvelocity g + 0.01,
              g_debug := g_debug g @ [''garbage'' @ [CHR 0x0A]]\<rparr>)"
proof -
  have "decoder_example \<noteq> []" by (simp add: decoder_example_def)
  then show ?thesis
    by (simp add: parse_instream_test4_def decoder_example_elements process_entry_test4_def
        py_int_10 py_int_5)
qed

lemma short_move_test4:
  "parse_instream_test4 g ''35;10M'' = Inl (IndexError, g\<lparr>g_mousex := 10\<rparr>)"
  by (simp add: parse_instream_test4_def instreamelements1_def remove_char_def
      process_entry_test4_def py_int_10)

text \<open>
  Claim C5 fails as it is stated. In \<^verbatim>\<open>test4_optimized.py\<close> the chunk of the example
  sets the mouse position and nothing else: \<open>zvelocity\<close> is what it was, so the segment
  \<open>64\<close> is not a wheel event. In \<^verbatim>\<open>test4.py\<close> a move segment with two fields raises
  \<open>IndexError\<close>.
\<close>

theorem decoder_example_counterexample:
  "parse_instream_optimized (globals_init 24 80) decoder_example
     = Inr ((globals_init 24 80)\<lparr>g_mousex := 10, g_mousey := 5\<rparr>)
   \<and> g_zvelocity ((globals_init 24 80)\<lparr>g_mousex := 10, g_mousey := 5\<rparr>)
       = g_zvelocity (globals_init 24 80)
   \<and> parse_instream_test4 (globals_init 24 80) ''35;10M''
     = Inl (IndexError, (globals_init 24 80)\<lparr>g_mousex := 10\<rparr>)"
  by (simp add: decoder_example_optimized short_move_test4)

section \<open>Clamping the intensity\<close>

text \<open>
  The two renderers with a cache clamp at both ends: for every noise value, slope and
  intercept the intensity is an integer from 0 to 255, and so is \<open>255 - val\<close>.
\<close>

lemma clamped_intensity_in_range:
  "0 \<le> min (max (py_trunc (noiseval * mx + b)) 0) 255
   \<and> min (max (py_trunc (noiseval * mx + b)) 0) 255 \<le> 255
   \<and> 0 \<le> (if py_trunc (noiseval * mx + b) < 0 then 0
            else if py_trunc (noiseval * mx + b) > 255 then 255 else py_trunc (noiseval * mx + b))
   \<and> (if py_trunc (noiseval * mx + b) < 0 then 0
       else if py_trunc (noiseval * mx + b) > 255 then 255 else py_trunc (noiseval * mx + b)) \<le> 255"
  by simp

lemma test4_val_upper: "test4_val noiseval mx b \<le> 255"
  by (simp add: test4_val_def Let_def)

lemma test4_val_not_clamped_below: "noiseval * mx + b \<le> 255 \<Longrightarrow> test4_val noiseval mx b = noiseval * mx + b"
  by (simp add: test4_val_def Let_def)

text \<open>
  Claim C1 does not hold in \<^verbatim>\<open>test4.py\<close>, which clamps at 255 only. With
  \<open>minfound = -0.25\<close> and \<open>maxfound = 0.25\<close> the recalibration gives slope 510 and
  intercept 127.5; a noise value of \<open>-0.5\<close> then has \<open>val = -127.5\<close>, and the cell is
  written with the red value \<open>-127\<close> and the green value \<open>382\<close>.
\<close>

theorem test4_intensity_below_zero:
  "recalibrate ((globals_init 2 1)\<lparr>g_minfound := - (1 / 4), g_maxfound := 1 / 4\<rparr>)
     = Inr ((globals_init 2 1)\<lparr>g_minfound := - (1 / 4), g_maxfound := 1 / 4,
                                 g_mx := 510, g_b := 255 / 2\<rparr>)
   \<and> test4_val (- (1 / 2)) 510 (255 / 2) = - (255 / 2)
   \<and> py_trunc (test4_val (- (1 / 2)) 510 (255 / 2)) = - 127
   \<and> g_lines (test4_render (\<lambda>x y z. - (1 / 2))
        ((globals_init 2 1)\<lparr>g_minfound := - (1 / 4), g_maxfound := 1 / 4,
                              g_mx := 510, g_b := 255 / 2\<rparr>))
     = [CHR 0x1B # ''[48;2;-127;382;0m '']"
  by (simp add: recalibrate_def mxplusb_def globals_init_def test4_val_def py_trunc_def
      test4_render_def rgb_template_def str_int_def digit_char_def Let_def)

section \<open>A frame of render_frame_optimized\<close>













lemma round_half_even_of_int: "round_half_even (of_int n) = n"
  by (simp add: round_half_even_def)











declare str_nat.simps [simp del]








text \<open>A frame of one row and two cells, computed: the bytes of the two tokens.\<close>

lemma small_frame:
  "fst (render_frame_optimized (\<lambda>x y z. x - 1) (NoiseRenderer_init 2 1) 0 0 0 127.5 127.5 0)
     = [CHR 0x1B # ''[48;2;0;255;0m '' @ CHR 0x1B # ''[48;2;12;243;0m '']"
  by (simp add: render_frame_optimized_def NoiseRenderer_init_def get_noise_cached_def
      py_round_def round_half_even_def dict_set_def py_trunc_def rgb_template_def str_int_def
      str_nat.simps digit_char_def Let_def upt_rec)

section \<open>The observed extrema\<close>

lemma test4_cells_extrema:
  "case test4_cells noise y g xs linedata of
     (linedata', g') \<Rightarrow>
       g_minfound g' \<le> g_minfound g \<and> g_maxfound g \<le> g_maxfound g' \<and> same_view g g'
       \<and> (\<forall>x \<in> set xs. g_minfound g' \<le> test4_sample noise g x y
                          \<and> test4_sample noise g x y \<le> g_maxfound g')"
proof (induction xs arbitrary: g linedata)
  case Nil
  then show ?case by (simp add: same_view_def)
next
  case (Cons x xs)
  let ?g1 = "g\<lparr>g_minfound := min (g_minfound g) (test4_sample noise g x y),
               g_maxfound := max (g_maxfound g) (test4_sample noise g x y)\<rparr>"
  let ?l1 = "linedata @ rgb_template (py_trunc (test4_val (test4_sample noise g x y) (g_mx g) (g_b g)))
                (py_trunc (255 - test4_val (test4_sample noise g x y) (g_mx g) (g_b g)))
                (g_framecount g mod 255)"
  have step: "test4_cells noise y g (x # xs) linedata = test4_cells noise y ?g1 xs ?l1"
    by (simp add: test4_sample_def Let_def)
  obtain l' g' where r: "test4_cells noise y ?g1 xs ?l1 = (l', g')" by (cases "test4_cells noise y ?g1 xs ?l1")
  have s: "test4_sample noise ?g1 x' y = test4_sample noise g x' y" for x'
    by (simp add: test4_sample_def)
  from Cons.IH[where g="?g1" and linedata="?l1"] r
  have ih: "g_minfound g' \<le> g_minfound ?g1" "g_maxfound ?g1 \<le> g_maxfound g'" "same_view ?g1 g'"
    "\<forall>x' \<in> set xs. g_minfound g' \<le> test4_sample noise g x' y
                          \<and> test4_sample noise g x' y \<le> g_maxfound g'"
    by (simp_all add: s)
  have "g_minfound g' \<le> g_minfound g" "g_maxfound g \<le> g_maxfound g'"
    "g_minfound g' \<le> test4_sample noise g x y" "test4_sample noise g x y \<le> g_maxfound g'"
    using ih(1,2) by simp_all
  moreover have "same_view g g'" using ih(3) by (simp add: same_view_def)
  ultimately show ?case unfolding step r using ih(4) by simp
qed

lemma test4_rows_extrema:
  "g_minfound (test4_rows noise g ys) \<le> g_minfound g
   \<and> g_maxfound g \<le> g_maxfound (test4_rows noise g ys)
   \<and> same_view g (test4_rows noise g ys)
   \<and> (\<forall>y \<in> set ys. \<forall>x \<in> set [0..<nat (g_width g)].
         g_minfound (test4_rows noise g ys) \<le> test4_sample noise g x y
         \<and> test4_sample noise g x y \<le> g_maxfound (test4_rows noise g ys))"
proof (induction ys arbitrary: g)
  case Nil
  then show ?case by (simp add: same_view_def)
next
  case (Cons y ys)
  obtain l g1 where c: "test4_cells noise y g [0..<nat (g_width g)] [] = (l, g1)"
    by (cases "test4_cells noise y g [0..<nat (g_width g)] []")
  let ?g2 = "g1\<lparr>g_lines := g_lines g1 @ [l]\<rparr>"
  have step: "test4_rows noise g (y # ys) = test4_rows noise ?g2 ys" by (simp add: c)
  from test4_cells_extrema[where noise=noise and y=y and g=g and xs="[0..<nat (g_width g)]"
      and linedata="[]"] c
  have c1: "g_minfound g1 \<le> g_minfound g" "g_maxfound g \<le> g_maxfound g1" "same_view g g1"
    "\<forall>x \<in> set [0..<nat (g_width g)]. g_minfound g1 \<le> test4_sample noise g x y
                          \<and> test4_sample noise g x y \<le> g_maxfound g1"
    by simp_all
  have v: "same_view g ?g2" using c1(3) by (simp add: same_view_def)
  have s: "test4_sample noise ?g2 x' y' = test4_sample noise g x' y'" for x' y'
    using v by (simp add: test4_sample_def same_view_def)
  have w: "g_width ?g2 = g_width g" using v by (simp add: same_view_def)
  let ?g' = "test4_rows noise ?g2 ys"
  from Cons.IH[where g="?g2"]
  have ih: "g_minfound ?g' \<le> g_minfound ?g2" "g_maxfound ?g2 \<le> g_maxfound ?g'"
    "same_view ?g2 ?g'"
    "\<forall>y' \<in> set ys. \<forall>x \<in> set [0..<nat (g_width g)].
         g_minfound ?g' \<le> test4_sample noise g x y'
         \<and> test4_sample noise g x y' \<le> g_maxfound ?g'"
    by (simp_all only: s w) blast+
  have a: "g_minfound ?g' \<le> g_minfound g" "g_maxfound g \<le> g_maxfound ?g'"
    using ih(1,2) c1(1,2) by simp_all
  have b: "same_view g ?g'" using v ih(3) by (simp add: same_view_def)
  have here: "\<forall>x \<in> set [0..<nat (g_width g)]. g_minfound ?g' \<le> test4_sample noise g x y
                          \<and> test4_sample noise g x y \<le> g_maxfound ?g'"
  proof
    fix x assume "x \<in> set [0..<nat (g_width g)]"
    then have "g_minfound g1 \<le> test4_sample noise g x y" "test4_sample noise g x y \<le> g_maxfound g1"
      using c1(4) by blast+
    then show "g_minfound ?g' \<le> test4_sample noise g x y \<and> test4_sample noise g x y \<le> g_maxfound ?g'"
      using ih(1,2) by simp
  qed
  show ?case unfolding step using a b here ih(4) by simp
qed

text \<open>
  In \<^verbatim>\<open>test4.py\<close> the frame does what claim C6 says: after it \<open>minfound\<close> is at most,
  and \<open>maxfound\<close> at least, every noise value sampled in the frame, and neither has
  narrowed.
\<close>

lemma test4_render_tracks_extrema:
  assumes "x < nat (g_width g)" and "y < nat (g_height g)"
  shows "g_minfound (test4_render noise g) \<le> test4_sample noise g x y
       \<and> test4_sample noise g x y \<le> g_maxfound (test4_render noise g)
       \<and> g_minfound (test4_render noise g) \<le> g_minfound g
       \<and> g_maxfound g \<le> g_maxfound (test4_render noise g)"
proof -
  let ?g0 = "g\<lparr>g_lines := []\<rparr>"
  have s: "test4_sample noise ?g0 x y = test4_sample noise g x y" by (simp add: test4_sample_def)
  let ?g' = "test4_rows noise ?g0 [0..<nat (g_height g)]"
  note t = test4_rows_extrema[where noise=noise and g="?g0" and ys="[0..<nat (g_height g)]"]
  have xy: "y \<in> set [0..<nat (g_height g)]" "x \<in> set [0..<nat (g_width ?g0)]"
    using assms by simp_all
  from t have "\<forall>y \<in> set [0..<nat (g_height g)]. \<forall>x \<in> set [0..<nat (g_width ?g0)].
         g_minfound ?g' \<le> test4_sample noise ?g0 x y
         \<and> test4_sample noise ?g0 x y \<le> g_maxfound ?g'"
    by blast
  then have "g_minfound ?g' \<le> test4_sample noise ?g0 x y
         \<and> test4_sample noise ?g0 x y \<le> g_maxfound ?g'"
    using xy by blast
  moreover have "g_minfound ?g' \<le> g_minfound ?g0" "g_maxfound ?g0 \<le> g_maxfound ?g'"
    using t by blast+
  ultimately show ?thesis unfolding test4_render_def s by simp
qed

text \<open>
  Claim C6 does not hold in \<^verbatim>\<open>test4_optimized.py\<close> and \<^verbatim>\<open>test4_optimized_v2.py\<close>:
  their frames never write \<open>minfound\<close> and \<open>maxfound\<close>. On a terminal of one cell whose
  noise value is \<open>-0.5\<close>, the first pass of the loop samples the cell (one call of the
  noise source, one row written) and ends with \<open>minfound = 0\<close>, which is above the sample.
\<close>

theorem optimized_frame_leaves_extrema:
  "loop_body_optimized (\<lambda>x y z. - (1 / 2)) \<lparr>in_event = - 1, in_maxyx = (2, 1), in_instream = []\<rparr>
       (start_optimized 2 1)
     = Continue
        ((globals_init 2 1)\<lparr>g_framecount := 1, g_xvelocity := - 1, g_yvelocity := - 1,
                              g_xoffset := - 1, g_yoffset := - 1\<rparr>,
         \<lparr>width = 1, height = 1, noise_cache = [((- 1, - 1, 0), - (1 / 2))],
          cache_max_size = 10000, frame_buffer = [CHR 0x1B # ''[48;2;63;192;1m ''],
          noise_calls = [(- 1, - 1, 0)]\<rparr>)
   \<and> loop_body_v2 (\<lambda>x y z. - (1 / 2)) \<lparr>in_event = - 1, in_maxyx = (2, 1), in_instream = []\<rparr>
       (start_v2 2 1)
     = Continue
        ((globals_init 2 1)\<lparr>g_framecount := 1, g_xvelocity := - (1 / 2000),
                              g_yvelocity := - (1 / 2000), g_xoffset := - (1 / 2000),
                              g_yoffset := - (1 / 2000)\<rparr>,
         \<lparr>v2_width = 1, v2_height = 1, enable_cache = True,
          v2_noise_cache = [((0, 0, 0), - (1 / 2))], v2_cache_max_size = 2000,
          cache_hits = 0, cache_misses = 1,
          output_parts = [CHR 0x1B # ''[48;2;63;192;1m ''],
          v2_noise_calls = [(- (1 / 2000), - (1 / 2000), 0)]\<rparr>)
   \<and> g_minfound (globals_init 2 1) = 0 \<and> g_maxfound (globals_init 2 1) = 0
   \<and> \<not> (0 \<le> - (1 / 2 :: real))"
proof -
  have a: "loop_body_optimized (\<lambda>x y z. - (1 / 2)) \<lparr>in_event = - 1, in_maxyx = (2, 1), in_instream = []\<rparr>
       (start_optimized 2 1)
     = Continue
        ((globals_init 2 1)\<lparr>g_framecount := 1, g_xvelocity := - 1, g_yvelocity := - 1,
                              g_xoffset := - 1, g_yoffset := - 1\<rparr>,
         \<lparr>width = 1, height = 1, noise_cache = [((- 1, - 1, 0), - (1 / 2))],
          cache_max_size = 10000, frame_buffer = [CHR 0x1B # ''[48;2;63;192;1m ''],
          noise_calls = [(- 1, - 1, 0)]\<rparr>)"
    by (simp add: loop_body_optimized_def start_optimized_def globals_init_def NoiseRenderer_init_def
        parse_instream_optimized_def update_velocity_def mxplusb_def render_frame_optimized_def
        get_noise_cached_def py_round_def round_half_even_def dict_set_def py_trunc_def
        rgb_template_def str_int_def str_nat.simps digit_char_def Let_def)
  have b: "loop_body_v2 (\<lambda>x y z. - (1 / 2)) \<lparr>in_event = - 1, in_maxyx = (2, 1), in_instream = []\<rparr>
       (start_v2 2 1)
     = Continue
        ((globals_init 2 1)\<lparr>g_framecount := 1, g_xvelocity := - (1 / 2000),
                              g_yvelocity := - (1 / 2000), g_xoffset := - (1 / 2000),
                              g_yoffset := - (1 / 2000)\<rparr>,
         \<lparr>v2_width = 1, v2_height = 1, enable_cache = True,
          v2_noise_cache = [((0, 0, 0), - (1 / 2))], v2_cache_max_size = 2000,
          cache_hits = 0, cache_misses = 1,
          output_parts = [CHR 0x1B # ''[48;2;63;192;1m ''],
          v2_noise_calls = [(- (1 / 2000), - (1 / 2000), 0)]\<rparr>)"
    by (simp add: loop_body_v2_def start_v2_def globals_init_def OptimizedNoiseRenderer_init_def
        parse_instream_v2_def update_velocity_v2_def render_frame_fast_def
        get_noise_optimized_def py_round_def round_half_even_def dict_set_def py_trunc_def
        rgb_template_def str_int_def str_nat.simps digit_char_def Let_def)
  have c: "g_minfound (globals_init 2 1) = 0 \<and> g_maxfound (globals_init 2 1) = 0
   \<and> \<not> (0 \<le> - (1 / 2 :: real))"
    by (simp add: globals_init_def)
  show ?thesis by (rule conjI[OF a conjI[OF b c]])
qed

theorem optimized_frame_leaves_extrema_witness:
  "(\<exists>g r. loop_body_optimized (\<lambda>x y z. - (1 / 2))
             \<lparr>in_event = - 1, in_maxyx = (2, 1), in_instream = []\<rparr> (start_optimized 2 1)
           = Continue (g, r)
         \<and> g_minfound g = 0 \<and> g_maxfound g = 0 \<and> noise_calls r = [(- 1, - 1, 0)])
   \<and> (\<exists>g q. loop_body_v2 (\<lambda>x y z. - (1 / 2))
             \<lparr>in_event = - 1, in_maxyx = (2, 1), in_instream = []\<rparr> (start_v2 2 1)
           = Continue (g, q)
         \<and> g_minfound g = 0 \<and> g_maxfound g = 0
         \<and> v2_noise_calls q = [(- (1 / 2000), - (1 / 2000), 0)])"
  using optimized_frame_leaves_extrema by (simp add: globals_init_def)

section \<open>The frame of test4.py\<close>

lemma test4_cells_line:
  "case test4_cells noise y g xs linedata of
     (linedata', g') \<Rightarrow>
       linedata' = linedata @ concat (map (\<lambda>x. test4_token g (test4_sample noise g x y)) xs)
       \<and> same_mapping g g' \<and> same_view g g' \<and> g_lines g' = g_lines g"
proof (induction xs arbitrary: g linedata)
  case Nil
  then show ?case by (simp add: same_view_def same_mapping_def)
next
  case (Cons x xs)
  let ?g1 = "g\<lparr>g_minfound := min (g_minfound g) (test4_sample noise g x y),
               g_maxfound := max (g_maxfound g) (test4_sample noise g x y)\<rparr>"
  let ?l1 = "linedata @ test4_token g (test4_sample noise g x y)"
  have step: "test4_cells noise y g (x # xs) linedata = test4_cells noise y ?g1 xs ?l1"
    by (simp add: test4_sample_def test4_token_def Let_def)
  obtain l' g' where r: "test4_cells noise y ?g1 xs ?l1 = (l', g')"
    by (cases "test4_cells noise y ?g1 xs ?l1")
  have s: "test4_token ?g1 (test4_sample noise ?g1 x' y) = test4_token g (test4_sample noise g x' y)" for x'
    by (simp add: test4_sample_def test4_token_def)
  from Cons.IH[where g="?g1" and linedata="?l1"] r
  have ih: "l' = ?l1 @ concat (map (\<lambda>x. test4_token g (test4_sample noise g x y)) xs)"
    "same_mapping ?g1 g'" "same_view ?g1 g'" "g_lines g' = g_lines ?g1"
    by (simp_all add: s)
  have "same_mapping g g'" "same_view g g'" "g_lines g' = g_lines g"
    using ih(2,3,4) by (simp_all add: same_mapping_def same_view_def)
  then show ?case unfolding step r using ih(1) by simp
qed

lemma test4_rows_lines:
  "g_lines (test4_rows noise g ys)
     = g_lines g @ map (\<lambda>y. concat (map (\<lambda>x. test4_token g (test4_sample noise g x y))
                                        [0..<nat (g_width g)])) ys
   \<and> same_mapping g (test4_rows noise g ys) \<and> same_view g (test4_rows noise g ys)"
proof (induction ys arbitrary: g)
  case Nil
  then show ?case by (simp add: same_view_def same_mapping_def)
next
  case (Cons y ys)
  obtain l g1 where c: "test4_cells noise y g [0..<nat (g_width g)] [] = (l, g1)"
    by (cases "test4_cells noise y g [0..<nat (g_width g)] []")
  let ?g2 = "g1\<lparr>g_lines := g_lines g1 @ [l]\<rparr>"
  have step: "test4_rows noise g (y # ys) = test4_rows noise ?g2 ys" by (simp add: c)
  from test4_cells_line[where noise=noise and y=y and g=g and xs="[0..<nat (g_width g)]"
      and linedata="[]"] c
  have c1: "l = concat (map (\<lambda>x. test4_token g (test4_sample noise g x y)) [0..<nat (g_width g)])"
    "same_mapping g g1" "same_view g g1" "g_lines g1 = g_lines g"
    by simp_all
  have m: "same_mapping g ?g2" and v: "same_view g ?g2"
    using c1(2,3) by (simp_all add: same_mapping_def same_view_def)
  have s: "test4_token ?g2 (test4_sample noise ?g2 x' y') = test4_token g (test4_sample noise g x' y')"
    for x' y'
    using m v by (simp add: test4_sample_def test4_token_def same_mapping_def same_view_def)
  have w: "g_width ?g2 = g_width g" using v by (simp add: same_view_def)
  let ?g' = "test4_rows noise ?g2 ys"
  from Cons.IH[where g="?g2"]
  have ih: "g_lines ?g' = g_lines ?g2 @ map (\<lambda>y. concat (map (\<lambda>x. test4_token g (test4_sample noise g x y))
                                        [0..<nat (g_width g)])) ys"
    "same_mapping ?g2 ?g'" "same_view ?g2 ?g'"
    by (simp_all only: s w)
  have "same_mapping g ?g'" "same_view g ?g'"
    using m v ih(2,3) by (simp_all add: same_mapping_def same_view_def)
  then show ?case unfolding step using ih(1) c1(1,4) by simp
qed

text \<open>
  The frame of \<^verbatim>\<open>test4.py\<close>: one row for each \<open>y\<close> below the height, each the tokens
  of the cells \<open>x\<close> below the width; rendering the same frame again writes the same rows.
  While the noise stays within \<open>[-1, 1]\<close> and slope and intercept are 127.5, the red and
  green values are within 0 and 255 (they need not add up to 255, both being truncated).
\<close>

lemma test4_render_lines:
  "g_lines (test4_render noise g)
     = map (\<lambda>y. concat (map (\<lambda>x. test4_token g (test4_sample noise g x y))
                              [0..<nat (g_width g)])) [0..<nat (g_height g)]
   \<and> g_lines (test4_render noise (test4_render noise g)) = g_lines (test4_render noise g)"
proof -
  let ?g0 = "g\<lparr>g_lines := []\<rparr>"
  have s0: "test4_token ?g0 (test4_sample noise ?g0 x y) = test4_token g (test4_sample noise g x y)"
    for x y by (simp add: test4_sample_def test4_token_def)
  note t = test4_rows_lines[where noise=noise and g="?g0" and ys="[0..<nat (g_height g)]"]
  have a: "g_lines (test4_render noise g)
     = map (\<lambda>y. concat (map (\<lambda>x. test4_token g (test4_sample noise g x y))
                              [0..<nat (g_width g)])) [0..<nat (g_height g)]"
    using conjunct1[OF t] unfolding test4_render_def s0 by simp
  let ?g1 = "test4_render noise g"
  have m: "same_mapping g ?g1" and v: "same_view g ?g1"
    using t unfolding test4_render_def by (simp_all add: same_mapping_def same_view_def)
  have s1: "test4_token ?g1 (test4_sample noise ?g1 x y) = test4_token g (test4_sample noise g x y)"
    for x y
    using m v by (simp add: test4_sample_def test4_token_def same_mapping_def same_view_def)
  have d: "g_width ?g1 = g_width g" "g_height ?g1 = g_height g"
    using v by (simp_all add: same_view_def)
  note t1 = test4_rows_lines[where noise=noise and g="?g1\<lparr>g_lines := []\<rparr>" and ys="[0..<nat (g_height ?g1)]"]
  have s2: "test4_token (?g1\<lparr>g_lines := []\<rparr>) (test4_sample noise (?g1\<lparr>g_lines := []\<rparr>) x y)
             = test4_token g (test4_sample noise g x y)" for x y
    using s1[of x y] by (simp add: test4_sample_def test4_token_def)
  have b: "g_lines (test4_render noise ?g1)
     = map (\<lambda>y. concat (map (\<lambda>x. test4_token g (test4_sample noise g x y))
                              [0..<nat (g_width g)])) [0..<nat (g_height g)]"
    using conjunct1[OF t1] unfolding test4_render_def[of noise ?g1] s2 d by (simp add: d)
  show ?thesis using a b by simp
qed

lemma test4_token_in_range:
  assumes "- 1 \<le> v" and "v \<le> 1" and "g_mx g = 127.5" and "g_b g = 127.5"
  shows "\<exists>R G. 0 \<le> R \<and> R \<le> 255 \<and> 0 \<le> G \<and> G \<le> 255
           \<and> test4_token g v = rgb_template R G (g_framecount g mod 255)"
proof -
  have lo: "0 \<le> v * 127.5 + 127.5" using assms(1) by simp
  have hi: "v * 127.5 + 127.5 \<le> 255" using assms(2) by simp
  have val: "test4_val v 127.5 127.5 = v * 127.5 + 127.5"
    using hi by (simp add: test4_val_def Let_def)
  have r: "0 \<le> py_trunc (v * 127.5 + 127.5)" "py_trunc (v * 127.5 + 127.5) \<le> 255"
    using lo hi by (simp_all add: py_trunc_def floor_le_iff)
  have g: "0 \<le> py_trunc (255 - (v * 127.5 + 127.5))" "py_trunc (255 - (v * 127.5 + 127.5)) \<le> 255"
    using lo hi by (simp_all add: py_trunc_def floor_le_iff)
  show ?thesis
    unfolding test4_token_def assms(3,4) val
    using r g by blast
qed

section \<open>A lookup repeated after an eviction\<close>












section \<open>The decoder of test4_optimized.py, event by event\<close>

lemma split_on_append:
  "split_on sep (xs @ sep # ys) = split_on sep xs @ split_on sep ys"
proof (induction xs)
  case Nil
  then show ?case by simp
next
  case (Cons x xs)
  obtain w ws where w: "split_on sep xs = w # ws"
    using split_on_nonempty[of sep xs] by (cases "split_on sep xs") auto
  show ?case using Cons by (simp add: w)
qed

lemma instreamelements1_filter:
  "instreamelements1 chunk
     = split_on CHR ''M'' (filter (\<lambda>c. c \<notin> set [CHR 0x1B, CHR ''['', CHR ''<'']) chunk)"
proof -
  have "(\<lambda>c. (c \<noteq> CHR 0x1B \<and> c \<noteq> CHR ''['') \<and> c \<noteq> CHR ''<'')
          = (\<lambda>c. c \<notin> set [CHR 0x1B, CHR ''['', CHR ''<''])"
    by auto
  then show ?thesis by (simp add: instreamelements1_def remove_char_def)
qed

lemma instreamelements1_append:
  "instreamelements1 (chunk @ CHR ''M'' # rest) = instreamelements1 chunk @ instreamelements1 rest"
  by (simp add: instreamelements1_filter split_on_append)

lemma process_entry_optimized_event:
  "process_entry_optimized g entry
     = Inr (if entry = [] then g else spec_apply g (spec_classify entry))"
proof (cases "entry = []")
  case True
  then show ?thesis by (simp add: process_entry_optimized_def)
next
  case False
  let ?f = "split_on CHR '';'' entry"
  show ?thesis
  proof (cases "length ?f < 3")
    case True
    then show ?thesis using False
      by (simp add: process_entry_optimized_def spec_classify_def Let_def)
  next
    case long: False
    then have hd: "hd ?f = ?f ! 0" by (simp add: hd_conv_nth split_on_nonempty)
    show ?thesis using False long
      by (simp add: process_entry_optimized_def spec_classify_def Let_def hd mouse_record_def
          except_pass_def split: option.splits)
  qed
qed

lemma for_each_optimized_events:
  "for_each process_entry_optimized g segments
     = Inr (foldl spec_apply g (map spec_classify (filter (\<lambda>segment. segment \<noteq> []) segments)))"
  by (induction segments arbitrary: g) (simp_all add: process_entry_optimized_event)

lemma parse_instream_optimized_events:
  "parse_instream_optimized g chunk = Inr (foldl spec_apply g (spec_decode chunk))"
proof (cases "chunk = []")
  case True
  then show ?thesis
    by (simp add: parse_instream_optimized_def spec_decode_def spec_segments_def)
next
  case False
  then show ?thesis
    by (simp add: parse_instream_optimized_def for_each_optimized_events spec_decode_def
        spec_segments_def instreamelements1_filter)
qed

lemma for_each_append:
  "for_each body s (xs @ ys)
     = (case for_each body s xs of Inl e \<Rightarrow> Inl e | Inr s' \<Rightarrow> for_each body s' ys)"
  by (induction xs arbitrary: s) (auto split: sum.splits)

lemma parse_instream_optimized_elements:
  "parse_instream_optimized g chunk = for_each process_entry_optimized g (instreamelements1 chunk)"
  by (simp add: parse_instream_optimized_def instreamelements1_def remove_char_def
      process_entry_optimized_def)

lemma parse_instream_optimized_continues:
  "\<exists>g1. parse_instream_optimized g chunk = Inr g1
     \<and> parse_instream_optimized g (chunk @ CHR ''M'' # rest) = parse_instream_optimized g1 rest"
proof -
  obtain g1 where g1: "parse_instream_optimized g chunk = Inr g1"
    by (simp add: parse_instream_optimized_events)
  then have "for_each process_entry_optimized g (instreamelements1 chunk) = Inr g1"
    by (simp only: parse_instream_optimized_elements)
  then have "parse_instream_optimized g (chunk @ CHR ''M'' # rest) = parse_instream_optimized g1 rest"
    by (simp only: parse_instream_optimized_elements instreamelements1_append for_each_append
        sum.case)
  then show ?thesis using g1 by blast
qed

lemma wheel_fields_ignored:
  "3 \<le> length (split_on CHR '';'' (code @ CHR '';'' # a @ CHR '';'' # b))
   \<and> hd (split_on CHR '';'' (code @ CHR '';'' # a @ CHR '';'' # b)) = hd (split_on CHR '';'' code)"
proof -
  obtain c cs where c: "split_on CHR '';'' code = c # cs"
    using split_on_nonempty[of "CHR '';''" code] by (cases "split_on CHR '';'' code") auto
  obtain d ds where d: "split_on CHR '';'' a = d # ds"
    using split_on_nonempty[of "CHR '';''" a] by (cases "split_on CHR '';'' a") auto
  obtain e es where e: "split_on CHR '';'' b = e # es"
    using split_on_nonempty[of "CHR '';''" b] by (cases "split_on CHR '';'' b") auto
  have "split_on CHR '';'' (code @ CHR '';'' # a @ CHR '';'' # b)
          = split_on CHR '';'' code @ split_on CHR '';'' a @ split_on CHR '';'' b"
    by (simp only: split_on_append)
  then show ?thesis by (simp add: c d e)
qed

lemma wheel_up_any_fields:
  "process_entry_optimized g (''64;'' @ a @ CHR '';'' # b)
     = Inr (g\<lparr>g_zvelocity := g_zvelocity g + 0.01\<rparr>)"
proof -
  have s: "''64;'' @ a @ CHR '';'' # b = ''64'' @ CHR '';'' # a @ CHR '';'' # b" by simp
  have "spec_classify (''64;'' @ a @ CHR '';'' # b) = WheelUp"
    unfolding s spec_classify_def Let_def
    using wheel_fields_ignored[where code="''64''" and a=a and b=b] by simp
  then show ?thesis by (simp add: process_entry_optimized_event)
qed

lemma wheel_down_any_fields:
  "process_entry_optimized g (''65;'' @ a @ CHR '';'' # b)
     = Inr (g\<lparr>g_zvelocity := g_zvelocity g - 0.01\<rparr>)"
proof -
  have s: "''65;'' @ a @ CHR '';'' # b = ''65'' @ CHR '';'' # a @ CHR '';'' # b" by simp
  have "spec_classify (''65;'' @ a @ CHR '';'' # b) = WheelDown"
    unfolding s spec_classify_def Let_def
    using wheel_fields_ignored[where code="''65''" and a=a and b=b] by simp
  then show ?thesis by (simp add: process_entry_optimized_event)
qed

lemma decoder_example_events:
  "spec_decode decoder_example = [Move 10 5, Unrecognized, Unrecognized]"
  by (simp add: spec_decode_def spec_segments_def decoder_example_def spec_classify_def
      py_int_10 py_int_5)

text \<open>
  Claim C5, amended. The decoder of \<^verbatim>\<open>test4_optimized.py\<close> raises on no chunk and
  leaves no segment out: the state after a chunk is the state after the events of all its
  segments, applied in their order, where a segment is classified as \<open>spec_classify\<close>
  says (fewer than three fields, an unknown code or a move with an unparsable column:
  unrecognized, nothing changes; a move with an unparsable row: the column only). What
  follows an \<open>M\<close> is decoded from the state that the part before it has left. A wheel
  record changes \<open>zvelocity\<close> whatever its other two fields are. The chunk of the
  example yields a move to (10, 5) and two unrecognized segments: it sets the mouse
  position and changes nothing else.
\<close>

theorem optimized_decoder_resilient:
  "parse_instream_optimized g chunk = Inr (foldl spec_apply g (spec_decode chunk))
   \<and> (\<exists>g1. parse_instream_optimized g chunk = Inr g1
          \<and> parse_instream_optimized g (chunk @ CHR ''M'' # rest) = parse_instream_optimized g1 rest)
   \<and> process_entry_optimized g (''64;'' @ a @ CHR '';'' # b)
        = Inr (g\<lparr>g_zvelocity := g_zvelocity g + 0.01\<rparr>)
   \<and> process_entry_optimized g (''65;'' @ a @ CHR '';'' # b)
        = Inr (g\<lparr>g_zvelocity := g_zvelocity g - 0.01\<rparr>)
   \<and> spec_decode decoder_example = [Move 10 5, Unrecognized, Unrecognized]
   \<and> parse_instream_optimized g decoder_example = Inr (g\<lparr>g_mousex := 10, g_mousey := 5\<rparr>)"
  by (rule conjI[OF parse_instream_optimized_events conjI[OF parse_instream_optimized_continues
        conjI[OF wheel_up_any_fields conjI[OF wheel_down_any_fields
        conjI[OF decoder_example_events decoder_example_optimized]]]]])

theorem optimized_decoder_resilient_witness:
  "parse_instream_optimized (globals_init 24 80)
       (CHR 0x1B # ''[<35;7;xyM'' @ CHR 0x1B # ''[<64;3;4M'' @ CHR 0x1B # ''[<65M''
          @ ''64;x;yM35;10;5'')
     = Inr ((globals_init 24 80)\<lparr>g_mousex := 10, g_mousey := 5, g_zvelocity := 0.02\<rparr>)
   \<and> spec_decode (CHR 0x1B # ''[<35;7;xyM'' @ CHR 0x1B # ''[<64;3;4M'' @ CHR 0x1B # ''[<65M''
          @ ''64;x;yM35;10;5'')
     = [MoveColumn 7, WheelUp, Unrecognized, WheelUp, Move 10 5]"
proof -
  let ?chunk = "CHR 0x1B # ''[<35;7;xyM'' @ CHR 0x1B # ''[<64;3;4M'' @ CHR 0x1B # ''[<65M''
          @ ''64;x;yM35;10;5''"
  have d: "spec_decode ?chunk = [MoveColumn 7, WheelUp, Unrecognized, WheelUp, Move 10 5]"
    by (simp add: spec_decode_def spec_segments_def spec_classify_def py_int_def strip_def
        is_space_def digit_val_def)
  have "parse_instream_optimized (globals_init 24 80) ?chunk
          = Inr (foldl spec_apply (globals_init 24 80) (spec_decode ?chunk))"
    by (rule conjunct1[OF optimized_decoder_resilient[where g="globals_init 24 80"
          and chunk="?chunk" and rest="[]" and a="[]" and b="[]"]])
  then have "parse_instream_optimized (globals_init 24 80) ?chunk
     = Inr ((globals_init 24 80)\<lparr>g_mousex := 10, g_mousey := 5, g_zvelocity := 0.02\<rparr>)"
    unfolding d by (simp add: globals_init_def)
  then show ?thesis using d by (rule conjI)
qed

section \<open>Rounding to a double\<close>

lemma num_bits_bounds:
  "2 ^ num_bits k \<le> 2 * (numeral k :: nat) \<and> (numeral k :: nat) < 2 ^ num_bits k"
proof (induction k)
  case One
  show ?case by simp
next
  case (Bit0 k)
  define m where "m = (numeral k :: nat)"
  define b where "b = num_bits k"
  have ih: "2 ^ b \<le> 2 * m \<and> m < 2 ^ b" unfolding m_def b_def by (rule Bit0)
  have e: "(numeral (num.Bit0 k) :: nat) = m + m" unfolding m_def by (rule numeral_Bit0)
  have p: "(2::nat) ^ num_bits (num.Bit0 k) = 2 * 2 ^ b" unfolding b_def by simp
  show ?case unfolding e p using ih by auto
next
  case (Bit1 k)
  define m where "m = (numeral k :: nat)"
  define b where "b = num_bits k"
  have ih: "2 ^ b \<le> 2 * m \<and> m < 2 ^ b" unfolding m_def b_def by (rule Bit1)
  have e: "(numeral (num.Bit1 k) :: nat) = m + m + 1" unfolding m_def by (rule numeral_Bit1)
  have p: "(2::nat) ^ num_bits (num.Bit1 k) = 2 * 2 ^ b" unfolding b_def by simp
  show ?case unfolding e p using ih by auto
qed

lemma bit_length_bounds: "0 < n \<Longrightarrow> 2 ^ bit_length n \<le> 2 * n \<and> n < 2 ^ bit_length n"
proof -
  assume n: "0 < n"
  have "nat_of_num (num_of_nat n) = n" using n by (rule num_of_nat_inverse)
  then have e: "numeral (num_of_nat n) = n" by (simp only: nat_of_num_numeral)
  have b: "bit_length n = num_bits (num_of_nat n)" using n by (simp add: bit_length_def)
  show ?thesis using num_bits_bounds[of "num_of_nat n"] unfolding b e .
qed

lemma bit_length_pos: "0 < n \<Longrightarrow> 0 < bit_length n"
proof -
  assume n: "0 < n"
  have "0 < num_bits k" for k by (cases k) simp_all
  then show ?thesis using n by (simp add: bit_length_def)
qed

lemma ldexp_powi: "ldexp x e = x * 2 powi e"
  by (simp add: ldexp_def power_int_def field_simps power_inverse)

lemma powi_pos: "0 < (2::real) powi e"
  by (simp add: zero_less_power_int)

lemma bit_length_real:
  assumes "0 < n"
  shows "0 < bit_length n"
    and "2 ^ (bit_length n - 1) \<le> real n"
    and "real n + 1 \<le> 2 ^ bit_length n"
proof -
  show pos: "0 < bit_length n" using assms by (rule bit_length_pos)
  note bb = bit_length_bounds[OF assms]
  have "(2::nat) ^ bit_length n = 2 * 2 ^ (bit_length n - 1)"
    using pos by (cases "bit_length n") simp_all
  then have "2 ^ (bit_length n - 1) \<le> n" using bb by linarith
  then have "real (2 ^ (bit_length n - 1)) \<le> real n" by (simp only: of_nat_le_iff)
  then show "2 ^ (bit_length n - 1) \<le> real n" by simp
  have "n + 1 \<le> 2 ^ bit_length n" using bb by linarith
  then have "real (n + 1) \<le> real (2 ^ bit_length n)" by (simp only: of_nat_le_iff)
  then show "real n + 1 \<le> 2 ^ bit_length n" by simp
qed

lemma powi_neg_nat: "(2::real) powi (- int j) = 1 / 2 ^ j"
  by (simp add: power_int_def power_inverse field_simps)

lemma floor_log2_bounds:
  assumes "0 < x"
  shows "2 powi (floor_log2 x) \<le> x \<and> x < 2 powi (floor_log2 x + 1)"
proof (cases "1 \<le> x")
  case True
  define n where "n = nat \<lfloor>x\<rfloor>"
  define k where "k = bit_length n"
  have n: "0 < n" using True by (simp add: n_def)
  have fl: "floor_log2 x = int k - 1" using True by (simp add: floor_log2_def n_def k_def)
  have nx: "real n \<le> x" "x < real n + 1" using True by (simp_all add: n_def)
  note r = bit_length_real[OF n, folded k_def]
  have lo: "2 ^ (k - 1) \<le> x" using r(2) nx(1) by linarith
  have hi: "x < 2 ^ k" using r(3) nx(2) by linarith
  have e1: "(2::real) powi (int k - 1) = 2 ^ (k - 1)"
    using r(1) by (simp add: power_int_def nat_diff_distrib')
  have e2: "(2::real) powi (int k - 1 + 1) = 2 ^ k"
    by (simp add: power_int_def)
  show ?thesis unfolding fl e1 e2 using lo hi by simp
next
  case False
  define n where "n = nat (\<lceil>1 / x\<rceil> - 1)"
  define k where "k = bit_length n"
  have x1: "x < 1" using False by simp
  have inv: "1 < 1 / x" using assms x1 by simp
  then have c2: "2 \<le> \<lceil>1 / x\<rceil>" by linarith
  then have n: "0 < n" by (simp add: n_def)
  have fl: "floor_log2 x = - int k" using False by (simp add: floor_log2_def n_def k_def)
  have z: "0 \<le> \<lceil>1 / x\<rceil> - 1" using c2 by linarith
  have "int n = \<lceil>1 / x\<rceil> - 1" unfolding n_def using z by (rule nat_0_le)
  then have "real_of_int (int n) = real_of_int (\<lceil>1 / x\<rceil> - 1)" by (rule arg_cong)
  then have "real n = real_of_int (\<lceil>1 / x\<rceil> - 1)" by (simp only: of_int_of_nat_eq)
  then have nx: "real n < 1 / x" "1 / x \<le> real n + 1" by linarith+
  note r = bit_length_real[OF n, folded k_def]
  have "1 / x \<le> 2 ^ k" using r(3) nx(2) by linarith
  then have "1 \<le> 2 ^ k * x" using assms by (simp add: field_simps)
  then have lo: "1 / 2 ^ k \<le> x" by (simp add: field_simps)
  have "2 ^ (k - 1) < 1 / x" using r(2) nx(1) by linarith
  then have "2 ^ (k - 1) * x < 1" using assms by (simp add: field_simps)
  then have hi: "x < 1 / 2 ^ (k - 1)" by (simp add: field_simps)
  have e1: "(2::real) powi (- int k) = 1 / 2 ^ k"
    by (simp add: power_int_def power_inverse field_simps)
  have e2: "(2::real) powi (- int k + 1) = 1 / 2 ^ (k - 1)"
  proof -
    have eq: "- int k + 1 = - int (k - 1)" using r(1) by linarith
    show ?thesis unfolding eq by (rule powi_neg_nat)
  qed
  show ?thesis unfolding fl e1 e2 using lo hi by simp
qed

lemma round_half_even_error: "\<bar>of_int (round_half_even y) - y\<bar> \<le> 1 / 2"
  unfolding round_half_even_def Let_def by (auto; linarith)

lemma fl_round_pos_form:
  assumes "0 < x"
  shows "fl_round x
           = of_int (round_half_even (x / 2 powi (floor_log2 x - 52))) * 2 powi (floor_log2 x - 52)"
proof -
  have "\<bar>x\<bar> = x" using assms by simp
  then show ?thesis using assms
    by (simp add: fl_round_def Let_def ldexp_powi power_int_minus field_simps)
qed

lemma fl_round_error:
  assumes "0 < x"
  shows "\<bar>fl_round x - x\<bar> \<le> x / 2 ^ 53"
proof -
  define P :: real where "P = 2 powi (floor_log2 x - 52)"
  define y where "y = x / P"
  have P: "0 < P" unfolding P_def by (rule powi_pos)
  have x: "x = y * P" using P by (simp add: y_def)
  have f: "fl_round x = of_int (round_half_even y) * P"
    unfolding y_def P_def using assms by (rule fl_round_pos_form)
  have "fl_round x - x = (of_int (round_half_even y) - y) * P"
    unfolding f by (subst x) (simp add: algebra_simps)
  then have "\<bar>fl_round x - x\<bar> = \<bar>of_int (round_half_even y) - y\<bar> * P"
    using P by (simp add: abs_mult)
  also have "\<dots> \<le> 1 / 2 * P"
    using round_half_even_error[of y] P by (simp add: mult_right_mono)
  finally have e: "\<bar>fl_round x - x\<bar> \<le> P / 2" by simp
  have "P = 2 powi (floor_log2 x) * 2 powi (- 52)"
    unfolding P_def by (simp add: power_int_diff power_int_minus field_simps)
  then have "P = 2 powi (floor_log2 x) / 2 ^ 52" by (simp add: power_int_minus field_simps)
  moreover have "2 powi (floor_log2 x) \<le> x" using floor_log2_bounds[OF assms] by simp
  ultimately have "P \<le> x / 2 ^ 52" by (simp add: divide_right_mono)
  then show ?thesis using e by simp
qed

lemma fl_round_zero: "fl_round 0 = 0"
  by (simp add: fl_round_def)

lemma fl_round_int:
  assumes "0 < m" and "m < 2 ^ 53"
  shows "fl_round (of_int m) = of_int m"
proof -
  define x where "x = real_of_int m"
  have x: "0 < x" "x < 2 ^ 53" using assms by (simp_all add: x_def)
  have "2 powi (floor_log2 x) \<le> x" using floor_log2_bounds[OF x(1)] by simp
  then have lt: "(2::real) powi (floor_log2 x) < 2 powi 53" using x(2) by simp
  have "floor_log2 x < 53"
  proof (rule ccontr)
    assume "\<not> floor_log2 x < 53"
    then have "53 \<le> floor_log2 x" by simp
    then have "(2::real) powi 53 \<le> 2 powi (floor_log2 x)" by (rule power_int_increasing) simp
    then show False using lt by simp
  qed
  then have le: "0 \<le> 52 - floor_log2 x" by linarith
  define n where "n = nat (52 - floor_log2 x)"
  have "int n = 52 - floor_log2 x" unfolding n_def using le by (rule nat_0_le)
  then have n: "floor_log2 x - 52 = - int n" by linarith
  have p: "(2::real) powi (- int n) = 1 / 2 ^ n" by (rule powi_neg_nat)
  have "x / (1 / 2 ^ n) = of_int (m * 2 ^ n)" by (simp add: x_def)
  then have "round_half_even (x / (1 / 2 ^ n)) = m * 2 ^ n"
    by (simp only: round_half_even_of_int)
  then have "fl_round x = of_int (m * 2 ^ n) * (1 / 2 ^ n)"
    unfolding fl_round_pos_form[OF x(1)] n p by simp
  then show ?thesis by (simp add: x_def)
qed

lemma fl_round_just_below_one:
  assumes "1 - 1 / 2 ^ 53 \<le> x" and "x < 1"
  shows "fl_round x = 1 - 1 / 2 ^ 53 \<or> fl_round x = 1"
proof -
  have pos: "0 < x" using assms(1) by (simp add: field_simps)
  have "1 < 1 / x" using pos assms(2) by simp
  moreover have "1 / x \<le> 2"
  proof -
    have "1 / 2 \<le> x" using assms(1) by simp
    then show ?thesis using pos by (simp add: field_simps)
  qed
  ultimately have "\<lceil>1 / x\<rceil> = 2" by (simp add: ceiling_eq_iff) 
  then have fl: "floor_log2 x = - 1"
    using assms(2) by (simp add: floor_log2_def bit_length_def)
  have p: "(2::real) powi (- 1 - 52) = 1 / 2 ^ 53"
    using powi_neg_nat[of 53] by simp
  define y where "y = x * 2 ^ 53"
  have y: "2 ^ 53 - 1 \<le> y" "y < 2 ^ 53" using assms by (simp_all add: y_def field_simps)
  then have "\<lfloor>y\<rfloor> = 2 ^ 53 - 1" by (simp add: floor_eq_iff)
  then have "round_half_even y = 2 ^ 53 - 1 \<or> round_half_even y = 2 ^ 53"
    by (auto simp: round_half_even_def Let_def)
  moreover have "fl_round x = of_int (round_half_even y) / 2 ^ 53"
    unfolding fl_round_pos_form[OF pos] fl p by (simp add: y_def)
  ultimately show ?thesis by auto
qed

lemma fl_round_just_above_one:
  assumes "1 \<le> x" and "x \<le> 1 + 1 / 2 ^ 53"
  shows "fl_round x = 1"
proof -
  have pos: "0 < x" using assms(1) by simp
  have "x < 2" using assms(2) by simp
  then have "\<lfloor>x\<rfloor> = 1" using assms(1) by (simp add: floor_eq_iff)
  then have fl: "floor_log2 x = 0"
    using assms(1) by (simp add: floor_log2_def bit_length_def)
  have p: "(2::real) powi (0 - 52) = 1 / 2 ^ 52"
    using powi_neg_nat[of 52] by simp
  define y where "y = x * 2 ^ 52"
  have y: "2 ^ 52 \<le> y" "y \<le> 2 ^ 52 + 1 / 2" using assms by (simp_all add: y_def field_simps)
  then have f: "\<lfloor>y\<rfloor> = 2 ^ 52" by (simp add: floor_eq_iff)
  have "y - of_int \<lfloor>y\<rfloor> \<le> 1 / 2" using y(2) by (simp add: f)
  then have "round_half_even y = 2 ^ 52"
    by (simp add: round_half_even_def Let_def f)
  moreover have "fl_round x = of_int (round_half_even y) / 2 ^ 52"
    unfolding fl_round_pos_form[OF pos] fl p by (simp add: y_def)
  ultimately show ?thesis by simp
qed

lemma fl_round_near_one:
  assumes "\<bar>x - 1\<bar> \<le> 1 / 2 ^ 53"
  shows "fl_round x = 1 - 1 / 2 ^ 53 \<or> fl_round x = 1"
proof (cases "x < 1")
  case True
  have "1 - 1 / 2 ^ 53 \<le> x" using assms by linarith
  then show ?thesis using True by (rule fl_round_just_below_one)
next
  case False
  have "x \<le> 1 + 1 / 2 ^ 53" using assms by linarith
  then have "fl_round x = 1" using False by (intro fl_round_just_above_one) simp_all
  then show ?thesis by simp
qed

lemma fl_round_values:
  "fl_round (- 1) = - 1"
  "fl_round (- (1 / 2 ^ 53)) = - (1 / 2 ^ 53)"
  "fl_round (1 - 1 / 2 ^ 53 + - 1) = - (1 / 2 ^ 53)"
  by (simp_all add: fl_round_def floor_log2_def round_half_even_def ldexp_def Let_def
      bit_length_def)

section \<open>The velocity at the centre, in doubles\<close>

lemma mxplusb_double_centre:
  assumes "0 < m"
  shows "mxplusb_double (- 1) 0 1 (2 * m) = Inr (fl_round (1 / of_int m), - 1)"
proof -
  have ne: "2 * m - 0 \<noteq> 0" using assms by simp
  have q: "real_of_int (1 - - 1) / real_of_int (2 * m - 0) = 1 / of_int m" by simp
  have b: "fl_round (fl_round (of_int (- 1)) - fl_round (fl_round (1 / of_int m) * fl_round (of_int 0)))
             = - 1"
    by (simp add: fl_round_zero fl_round_values)
  show ?thesis
    unfolding mxplusb_double_def Let_def q b using ne by simp
qed

lemma centre_product:
  assumes "0 < m" and "m < 2 ^ 53"
  shows "fl_round (fl_round (of_int m) * fl_round (1 / of_int m)) = 1 - 1 / 2 ^ 53
       \<or> fl_round (fl_round (of_int m) * fl_round (1 / of_int m)) = 1"
proof -
  define x where "x = real_of_int m"
  define q where "q = fl_round (1 / x)"
  have x: "0 < x" using assms(1) by (simp add: x_def)
  have "\<bar>q - 1 / x\<bar> \<le> (1 / x) / 2 ^ 53"
    unfolding q_def using x by (intro fl_round_error) simp
  then have "\<bar>q - 1 / x\<bar> * x \<le> (1 / x) / 2 ^ 53 * x"
    using x by (intro mult_right_mono) simp_all
  moreover have "\<bar>q - 1 / x\<bar> * x = \<bar>x * q - 1\<bar>"
  proof -
    have "\<bar>q - 1 / x\<bar> * x = \<bar>(q - 1 / x) * x\<bar>" using x by (simp add: abs_mult)
    also have "(q - 1 / x) * x = x * q - 1" using x by (simp add: algebra_simps)
    finally show ?thesis .
  qed
  moreover have "(1 / x) / 2 ^ 53 * x = 1 / 2 ^ 53" using x by simp
  ultimately have "\<bar>x * q - 1\<bar> \<le> 1 / 2 ^ 53" by simp
  then have "fl_round (x * q) = 1 - 1 / 2 ^ 53 \<or> fl_round (x * q) = 1"
    by (rule fl_round_near_one)
  moreover have "fl_round (of_int m) = x" unfolding x_def using assms by (rule fl_round_int)
  ultimately show ?thesis by (simp only: q_def x_def)
qed

lemma centre_velocity:
  assumes "0 < m" and "m < 2 ^ 53"
  shows "fl_round (fl_round (fl_round (of_int m) * fl_round (1 / of_int m)) + - 1) = 0
       \<or> fl_round (fl_round (fl_round (of_int m) * fl_round (1 / of_int m)) + - 1) = - (1 / 2 ^ 53)"
  using centre_product[OF assms]
proof
  assume a: "fl_round (fl_round (of_int m) * fl_round (1 / of_int m)) = 1 - 1 / 2 ^ 53"
  show ?thesis unfolding a by (rule disjI2) (rule fl_round_values(3))
next
  assume a: "fl_round (fl_round (of_int m) * fl_round (1 / of_int m)) = 1"
  show ?thesis unfolding a by (rule disjI1) (simp add: fl_round_zero)
qed

lemma centre_velocity_v2:
  "fl_round (fl_round (fl_round (of_int m) - fl_round (of_int (2 * m) / 2)) * fl_round (1 / 1000)) = 0"
proof -
  have "real_of_int (2 * m) / 2 = of_int m" by simp
  then show ?thesis by (simp add: fl_round_zero)
qed

lemma update_velocity_double_centre:
  assumes "0 < g_mousex g" and "g_width g = 2 * g_mousex g"
    and "0 < g_mousey g" and "g_height g = 2 * g_mousey g"
  shows "\<exists>g'. update_velocity_double g = Inr g'
     \<and> g_xvelocity g' = fl_round (fl_round (fl_round (of_int (g_mousex g))
                                      * fl_round (1 / of_int (g_mousex g))) + - 1)
     \<and> g_yvelocity g' = fl_round (fl_round (fl_round (of_int (g_mousey g))
                                      * fl_round (1 / of_int (g_mousey g))) + - 1)"
proof -
  have X: "mxplusb_double (- 1) 0 1 (g_width g) = Inr (fl_round (1 / of_int (g_mousex g)), - 1)"
    by (simp only: assms(2) mxplusb_double_centre[OF assms(1)])
  have Y: "mxplusb_double (- 1) 0 1 (g_height g) = Inr (fl_round (1 / of_int (g_mousey g)), - 1)"
    by (simp only: assms(4) mxplusb_double_centre[OF assms(3)])
  show ?thesis
    by (simp add: update_velocity_double_def X Y Let_def)
qed

text \<open>
  Claim C7 fails as it is stated. On a terminal of 98 columns and 24 rows with the mouse
  at the centre, column 49 and row 12, the velocity lines of \<^verbatim>\<open>test4.py\<close> and
  \<^verbatim>\<open>test4_optimized.py\<close> compute \<open>2 / 98\<close>, which is rounded down, then
  \<open>49 * (2 / 98) = 1 - 2 ^ -53\<close>, and \<open>xvelocity\<close> is \<open>-2 ^ -53\<close>, about
  \<open>-1.1e-16\<close>, and not 0; \<open>xoffset\<close> moves by as much.
\<close>

theorem velocity_not_zero_at_width_98:
  "g_width ((globals_init 25 98)\<lparr>g_mousex := 49, g_mousey := 12\<rparr>) = 2 * 49
   \<and> g_height ((globals_init 25 98)\<lparr>g_mousex := 49, g_mousey := 12\<rparr>) = 2 * 12
   \<and> update_velocity_double ((globals_init 25 98)\<lparr>g_mousex := 49, g_mousey := 12\<rparr>)
       = Inr ((globals_init 25 98)\<lparr>g_mousex := 49, g_mousey := 12,
                g_xvelocity := - (1 / 2 ^ 53), g_yvelocity := 0,
                g_xoffset := - (1 / 2 ^ 53)\<rparr>)
   \<and> - (1 / 2 ^ 53) \<noteq> (0::real)"
  by (simp add: update_velocity_double_def mxplusb_double_def fl_round_def floor_log2_def
      round_half_even_def ldexp_def Let_def bit_length_def globals_init_def)

text \<open>
  Claim C7, amended. Let width and height be positive and below \<open>2 ^ 53\<close>, and let the
  mouse be at the exact centre (\<open>width = 2 * mousex\<close>, \<open>height = 2 * mousey\<close>). The
  velocity lines of \<^verbatim>\<open>test4.py\<close> and \<^verbatim>\<open>test4_optimized.py\<close>, which fit
  \<open>mxplusb(-1, 0, 1, width)\<close>, raise nothing, and each velocity is 0 or off by one
  rounding: it is 0 or \<open>-2 ^ -53\<close>. The simplified lines of
  \<^verbatim>\<open>test4_optimized_v2.py\<close> set both velocities to exactly 0. Arithmetic is that of
  IEEE doubles.
\<close>

theorem velocity_at_centre_in_doubles:
  assumes "0 < g_mousex g" and "g_width g = 2 * g_mousex g" and "g_width g < 2 ^ 53"
    and "0 < g_mousey g" and "g_height g = 2 * g_mousey g" and "g_height g < 2 ^ 53"
  shows "(\<exists>g'. update_velocity_double g = Inr g'
            \<and> (g_xvelocity g' = 0 \<or> g_xvelocity g' = - (1 / 2 ^ 53))
            \<and> (g_yvelocity g' = 0 \<or> g_yvelocity g' = - (1 / 2 ^ 53)))
       \<and> g_xvelocity (update_velocity_v2_double g) = 0
       \<and> g_yvelocity (update_velocity_v2_double g) = 0"
proof -
  have mx: "g_mousex g < 2 ^ 53" using assms(1,2,3) by linarith
  have my: "g_mousey g < 2 ^ 53" using assms(4,5,6) by linarith
  obtain g' where g': "update_velocity_double g = Inr g'"
    and x: "g_xvelocity g' = fl_round (fl_round (fl_round (of_int (g_mousex g))
                                      * fl_round (1 / of_int (g_mousex g))) + - 1)"
    and y: "g_yvelocity g' = fl_round (fl_round (fl_round (of_int (g_mousey g))
                                      * fl_round (1 / of_int (g_mousey g))) + - 1)"
    using update_velocity_double_centre[OF assms(1,2,4,5)] by blast
  have vx: "g_xvelocity g' = 0 \<or> g_xvelocity g' = - (1 / 2 ^ 53)"
    unfolding x using assms(1) mx by (rule centre_velocity)
  have vy: "g_yvelocity g' = 0 \<or> g_yvelocity g' = - (1 / 2 ^ 53)"
    unfolding y using assms(4) my by (rule centre_velocity)
  have a: "\<exists>g'. update_velocity_double g = Inr g'
            \<and> (g_xvelocity g' = 0 \<or> g_xvelocity g' = - (1 / 2 ^ 53))
            \<and> (g_yvelocity g' = 0 \<or> g_yvelocity g' = - (1 / 2 ^ 53))"
    using g' vx vy by blast
  have b: "g_xvelocity (update_velocity_v2_double g) = 0"
    using centre_velocity_v2[of "g_mousex g"]
    by (simp add: update_velocity_v2_double_def Let_def assms(2))
  have c: "g_yvelocity (update_velocity_v2_double g) = 0"
    using centre_velocity_v2[of "g_mousey g"]
    by (simp add: update_velocity_v2_double_def Let_def assms(5))
  show ?thesis by (rule conjI[OF a conjI[OF b c]])
qed

theorem velocity_at_centre_in_doubles_witness:
  "(\<exists>g'. update_velocity_double ((globals_init 25 80)\<lparr>g_mousex := 40, g_mousey := 12\<rparr>) = Inr g'
            \<and> (g_xvelocity g' = 0 \<or> g_xvelocity g' = - (1 / 2 ^ 53))
            \<and> (g_yvelocity g' = 0 \<or> g_yvelocity g' = - (1 / 2 ^ 53)))
   \<and> g_xvelocity (update_velocity_v2_double ((globals_init 25 80)\<lparr>g_mousex := 40, g_mousey := 12\<rparr>)) = 0
   \<and> g_yvelocity (update_velocity_v2_double ((globals_init 25 80)\<lparr>g_mousex := 40, g_mousey := 12\<rparr>)) = 0"
  using velocity_at_centre_in_doubles[of "(globals_init 25 80)\<lparr>g_mousex := 40, g_mousey := 12\<rparr>"]
  by (simp add: globals_init_def)

text \<open>
  At 80 columns and 24 rows both velocities are exactly 0, and the offsets stay where
  they are.
\<close>

lemma velocity_zero_at_width_80:
  "update_velocity_double ((globals_init 25 80)\<lparr>g_mousex := 40, g_mousey := 12\<rparr>)
       = Inr ((globals_init 25 80)\<lparr>g_mousex := 40, g_mousey := 12,
                g_xvelocity := 0, g_yvelocity := 0\<rparr>)"
  by (simp add: update_velocity_double_def mxplusb_double_def fl_round_def floor_log2_def
      round_half_even_def ldexp_def Let_def bit_length_def globals_init_def)

end
